theory Spec2Isabelle
  imports Complex_Main
begin

section \<open>picozero: the value sequencer and the PWM channel registry\<close>

text \<open>
  A shallow embedding of \<^verbatim>\<open>src/picozero/picozero.py\<close>: the class \<^verbatim>\<open>ValueChange\<close>
  (the timed value sequencer), the parts of \<^verbatim>\<open>OutputDevice\<close>, \<^verbatim>\<open>PWMOutputDevice\<close>,
  \<^verbatim>\<open>PWMLED\<close> and \<^verbatim>\<open>PWMBuzzer\<close> that start, stop and feed it, and the class-level
  dictionary \<^verbatim>\<open>_channels_used\<close>.

  Python's \<^verbatim>\<open>int\<close> is \<^typ>\<open>int\<close>. A number that may be a \<^verbatim>\<open>float\<close> (seconds, frame
  rates, brightness levels, frequencies) is the \<^typ>\<open>rat\<close> it denotes, and every
  arithmetic operation of the source on such numbers is the exact operation followed by
  the rounding \<open>double\<close> of IEEE 754 binary64, defined below. The one exception is the
  power \<^verbatim>\<open>**\<close> of two floats, which the standard leaves to the C library: it is a
  parameter of the function that uses it.
\<close>

subsection \<open>Errors and Python helpers\<close>

text \<open>The exceptions that the modelled code can raise and not catch.\<close>

datatype error =
    RecursionError
  | IndexError
  | KeyError
  | PWMChannelAlreadyInUse string

text \<open>Python's \<^verbatim>\<open>int(x)\<close> on a number: truncation towards zero.\<close>

definition py_int :: "'a::floor_ceiling \<Rightarrow> int" where
  "py_int x = (if 0 \<le> x then \<lfloor>x\<rfloor> else \<lceil>x\<rceil>)"

subsection \<open>Floating point\<close>

text \<open>
  Python's \<^verbatim>\<open>float\<close> is the IEEE 754 binary64 format. Its operations \<^verbatim>\<open>+\<close>, \<^verbatim>\<open>-\<close>, \<^verbatim>\<open>*\<close>
  and \<^verbatim>\<open>/\<close>, also between an \<^verbatim>\<open>int\<close> and a \<^verbatim>\<open>float\<close> and for \<^verbatim>\<open>/\<close> between two \<^verbatim>\<open>int\<close>s,
  return the exact result rounded to the nearest number with 53 significant bits, a tie
  going to the even significand. \<open>fl p\<close> is that rounding for \<open>p\<close> significant bits. The
  exponent is not bounded here: the model has neither overflow nor subnormal numbers,
  which lie beyond \<open>2 ^ 1024\<close> and below \<open>2 ^ - 1022\<close> in magnitude. (A MicroPython build
  with single-precision floats rounds to 24 bits instead.)

  \<open>bit_length\<close> is the number of binary digits of a positive integer, and \<open>ilog2 x\<close> is
  the exponent \<open>k\<close> with \<open>2 ^ k \<le> x < 2 ^ (k + 1)\<close> of a positive rational (lemmas
  \<open>bit_length_bounds\<close> and \<open>ilog2_bounds\<close>).
\<close>

function bit_length :: "int \<Rightarrow> nat" where
  "bit_length n = (if n \<le> 0 then 0 else Suc (bit_length (n div 2)))"
  by pat_completeness auto
termination
  by (relation "measure nat") auto

declare bit_length.simps [simp del]

definition ilog2 :: "rat \<Rightarrow> int" where
  "ilog2 x =
     (let k = int (bit_length (fst (quotient_of x))) - int (bit_length (snd (quotient_of x)))
      in if 2 powi k \<le> x then k else k - 1)"

definition round_half_even :: "rat \<Rightarrow> int" where
  "round_half_even y =
     (let f = \<lfloor>y\<rfloor>; r = y - of_int f
      in if r < 1 / 2 then f else if 1 / 2 < r then f + 1 else if even f then f else f + 1)"

definition fl :: "nat \<Rightarrow> rat \<Rightarrow> rat" where
  "fl p x =
     (if x = 0 then 0
      else let e = ilog2 \<bar>x\<bar> - (int p - 1)
           in sgn x * of_int (round_half_even (\<bar>x\<bar> / 2 powi e)) * 2 powi e)"

definition double :: "rat \<Rightarrow> rat" where
  "double x = fl 53 x"

subsection \<open>ValueChange and OutputDevice\<close>

text \<open>
  A step is the pair \<^verbatim>\<open>(value, seconds)\<close> that a generator yields. Every generator of
  the source yields a finite sequence of steps fixed by the parameters it captured, so
  the generator function \<^verbatim>\<open>self._generator\<close> is modelled by the list that each call of it
  yields, and the running generator \<^verbatim>\<open>self._gen\<close> by the steps it has still to yield;
  \<^verbatim>\<open>next\<close> on the empty list is \<^verbatim>\<open>StopIteration\<close>.

  \<^verbatim>\<open>self._timer\<close> is a one-shot timer of the platform: \<open>Some p\<close> when it is armed with a
  period of \<open>p\<close> milliseconds and the callback \<^verbatim>\<open>self._set_value\<close>, \<open>None\<close> when it is not
  armed (never initialised, expired, or after \<^verbatim>\<open>deinit\<close>).
\<close>

type_synonym 'v step = "'v \<times> rat"

record 'v ValueChange =
  vc_generator :: "'v step list"
  vc_n :: "int option"
  vc_gen :: "'v step list"
  vc_timer :: "int option"
  vc_running :: bool

text \<open>
  A \<^verbatim>\<open>ValueChange\<close> and its device refer to each other (\<^verbatim>\<open>self._output_device\<close> and
  \<^verbatim>\<open>self._value_changer\<close>), and a stopped \<^verbatim>\<open>ValueChange\<close> outlives its replacement, so
  the objects live in a store indexed by their identity. \<open>changers\<close> is the store of the
  \<^verbatim>\<open>ValueChange\<close> objects made for the device, \<open>value_changer\<close> the attribute
  \<^verbatim>\<open>_value_changer\<close>, and \<open>writes\<close> the values passed to \<^verbatim>\<open>_write\<close> so far, oldest first
  (what \<^verbatim>\<open>_write\<close> does with a value on the pin is the subclass's business).
\<close>

type_synonym addr = nat

record 'v OutputDevice =
  changers :: "addr \<Rightarrow> 'v ValueChange"
  value_changer :: "addr option"
  writes :: "'v list"

text \<open>An assignment to attributes of the \<^verbatim>\<open>ValueChange\<close> object \<open>a\<close>.\<close>

definition on_changer ::
  "addr \<Rightarrow> ('v ValueChange \<Rightarrow> 'v ValueChange) \<Rightarrow>
   ('v, 'm) OutputDevice_scheme \<Rightarrow> ('v, 'm) OutputDevice_scheme" where
  "on_changer a f dev = dev\<lparr>changers := (changers dev)(a := f (changers dev a))\<rparr>"

text \<open>\<^verbatim>\<open>OutputDevice._write(value)\<close>, as far as the sequencer sees it.\<close>

definition OutputDevice_write ::
  "'v \<Rightarrow> ('v, 'm) OutputDevice_scheme \<Rightarrow> ('v, 'm) OutputDevice_scheme" where
  "OutputDevice_write v dev = dev\<lparr>writes := writes dev @ [v]\<rparr>"

text \<open>
  \<^verbatim>\<open>ValueChange.stop\<close>:
  \<^verbatim>\<open>self._running = False; self._timer.deinit()\<close>.
\<close>

definition ValueChange_stop ::
  "addr \<Rightarrow> ('v, 'm) OutputDevice_scheme \<Rightarrow> ('v, 'm) OutputDevice_scheme" where
  "ValueChange_stop a dev = on_changer a (\<lambda>c. c\<lparr>vc_running := False, vc_timer := None\<rparr>) dev"

text \<open>
  \<^verbatim>\<open>OutputDevice._stop_change\<close>: stop the attached \<^verbatim>\<open>ValueChange\<close>, if any, and detach it.
\<close>

definition OutputDevice_stop_change ::
  "('v, 'm) OutputDevice_scheme \<Rightarrow> ('v, 'm) OutputDevice_scheme" where
  "OutputDevice_stop_change dev =
     (case value_changer dev of
        None \<Rightarrow> dev
      | Some a \<Rightarrow> (ValueChange_stop a dev)\<lparr>value_changer := None\<rparr>)"

text \<open>The setter of the property \<^verbatim>\<open>OutputDevice.value\<close>.\<close>

definition OutputDevice_value_setter ::
  "'v \<Rightarrow> ('v, 'm) OutputDevice_scheme \<Rightarrow> ('v, 'm) OutputDevice_scheme" where
  "OutputDevice_value_setter v dev = OutputDevice_write v (OutputDevice_stop_change dev)"

text \<open>\<^verbatim>\<open>OutputDevice.off\<close> and \<^verbatim>\<open>OutputDevice.close\<close>: \<^verbatim>\<open>self.value = 0\<close>.\<close>

definition OutputDevice_off ::
  "('v::zero, 'm) OutputDevice_scheme \<Rightarrow> ('v, 'm) OutputDevice_scheme" where
  "OutputDevice_off dev = OutputDevice_value_setter 0 dev"

definition OutputDevice_close ::
  "('v::zero, 'm) OutputDevice_scheme \<Rightarrow> ('v, 'm) OutputDevice_scheme" where
  "OutputDevice_close dev = OutputDevice_value_setter 0 dev"

text \<open>
  \<^verbatim>\<open>ValueChange._set_value\<close>. The first argument is the number of stack frames that
  are left for the call: the method calls itself after it has recreated the generator,
  and Python raises \<^verbatim>\<open>RecursionError\<close> when the stack is used up. When the object is
  not running the body of the \<^verbatim>\<open>try\<close> does nothing; an empty \<open>vc_gen\<close> is the
  \<^verbatim>\<open>StopIteration\<close> branch. The period of the timer is \<^verbatim>\<open>int(seconds * 1000)\<close>, the
  product being a floating-point one.
\<close>

fun ValueChange_set_value ::
  "nat \<Rightarrow> addr \<Rightarrow> ('v::zero, 'm) OutputDevice_scheme \<Rightarrow> error + ('v, 'm) OutputDevice_scheme"
where
  "ValueChange_set_value 0 a dev = Inl RecursionError"
| "ValueChange_set_value (Suc d) a dev =
     (if \<not> vc_running (changers dev a) then Inr dev
      else
        case vc_gen (changers dev a) of
          (v, seconds) # rest \<Rightarrow>
            Inr (on_changer a (\<lambda>c. c\<lparr>vc_timer := Some (py_int (double (seconds * 1000)))\<rparr>)
                  (OutputDevice_write v
                    (on_changer a (\<lambda>c. c\<lparr>vc_gen := rest\<rparr>) dev)))
        | [] \<Rightarrow>
            let dev1 = on_changer a
                  (\<lambda>c. c\<lparr>vc_n := (case vc_n c of None \<Rightarrow> None | Some k \<Rightarrow> Some (k - 1))\<rparr>) dev
            in if vc_n (changers dev1 a) = Some 0
               then Inr (on_changer a (\<lambda>c. c\<lparr>vc_running := False\<rparr>)
                          (OutputDevice_value_setter 0 dev1))
               else ValueChange_set_value d a
                      (on_changer a (\<lambda>c. c\<lparr>vc_gen := vc_generator c\<rparr>) dev1))"

text \<open>
  \<^verbatim>\<open>ValueChange.__init__\<close> on the fresh object \<open>a\<close>, up to its last statement. That
  statement, \<^verbatim>\<open>while wait and self._running: sleep(0.001)\<close>, assigns nothing: with
  \<^verbatim>\<open>wait=True\<close> it delays the return, and with it the assignment to \<^verbatim>\<open>_value_changer\<close> in
  \<^verbatim>\<open>_start_change\<close>, until the timer callbacks, which are the events \<open>timer_expiry\<close> below,
  have ended the sequence. The model is the case \<^verbatim>\<open>wait=False\<close>.
\<close>

definition ValueChange_init ::
  "nat \<Rightarrow> addr \<Rightarrow> 'v step list \<Rightarrow> int option \<Rightarrow>
   ('v::zero, 'm) OutputDevice_scheme \<Rightarrow> error + ('v, 'm) OutputDevice_scheme" where
  "ValueChange_init d a generator n dev =
     ValueChange_set_value d a
       (on_changer a
          (\<lambda>_. \<lparr>vc_generator = generator, vc_n = n, vc_gen = generator,
                vc_timer = None, vc_running = True\<rparr>) dev)"

text \<open>
  \<^verbatim>\<open>OutputDevice._start_change\<close>:
  \<^verbatim>\<open>self._value_changer = ValueChange(self, generator, n, wait)\<close>.
\<close>

definition OutputDevice_start_change ::
  "nat \<Rightarrow> addr \<Rightarrow> 'v step list \<Rightarrow> int option \<Rightarrow>
   ('v::zero, 'm) OutputDevice_scheme \<Rightarrow> error + ('v, 'm) OutputDevice_scheme" where
  "OutputDevice_start_change d a generator n dev =
     (case ValueChange_init d a generator n dev of
        Inl e \<Rightarrow> Inl e
      | Inr dev' \<Rightarrow> Inr (dev'\<lparr>value_changer := Some a\<rparr>))"

text \<open>
  Modelled from the spec: the hardware timer, which is the platform's \<^verbatim>\<open>machine.Timer\<close>
  and not part of the repository. An armed one-shot timer fires its callback exactly
  once, and is no longer armed when the callback runs; a timer that is not armed fires
  nothing. \<open>timer_expiry d a\<close> is the expiry of the timer of the object \<open>a\<close>, the callback
  running with \<open>d\<close> stack frames.
\<close>

definition timer_expiry ::
  "nat \<Rightarrow> addr \<Rightarrow> ('v::zero, 'm) OutputDevice_scheme \<Rightarrow> error + ('v, 'm) OutputDevice_scheme"
where
  "timer_expiry d a dev =
     (case vc_timer (changers dev a) of
        None \<Rightarrow> Inr dev
      | Some p \<Rightarrow> ValueChange_set_value d a (on_changer a (\<lambda>c. c\<lparr>vc_timer := None\<rparr>) dev))"

text \<open>\<open>m\<close> expiries in a row; an exception in a callback ends the run.\<close>

fun timer_expiries ::
  "nat \<Rightarrow> nat \<Rightarrow> addr \<Rightarrow> ('v::zero, 'm) OutputDevice_scheme \<Rightarrow>
   error + ('v, 'm) OutputDevice_scheme" where
  "timer_expiries 0 d a dev = Inr dev"
| "timer_expiries (Suc m) d a dev =
     (case timer_expiry d a dev of
        Inl e \<Rightarrow> Inl e
      | Inr dev' \<Rightarrow> timer_expiries m d a dev')"

text \<open>
  \<^verbatim>\<open>OutputDevice.__init__\<close>: \<^verbatim>\<open>self._write(initial_value); self._value_changer = None\<close>.
  No \<^verbatim>\<open>ValueChange\<close> has been made for the new device, so every place of the store
  holds an object that is not running and whose timer is not armed.
\<close>

definition idle_changer :: "'v ValueChange" where
  "idle_changer =
     \<lparr>vc_generator = [], vc_n = None, vc_gen = [], vc_timer = None, vc_running = False\<rparr>"

definition OutputDevice_init :: "'v \<Rightarrow> 'v OutputDevice" where
  "OutputDevice_init initial_value =
     \<lparr>changers = (\<lambda>_. idle_changer), value_changer = None, writes = [initial_value]\<rparr>"

text \<open>
  \<^verbatim>\<open>OutputDevice.blink(on_time, off_time, n, wait)\<close>; \<open>a\<close> is the identity of the
  \<^verbatim>\<open>ValueChange\<close> it creates and the list is what
  \<^verbatim>\<open>lambda : iter([(1,on_time), (0,off_time)])\<close> yields.
\<close>

definition OutputDevice_blink ::
  "nat \<Rightarrow> addr \<Rightarrow> rat \<Rightarrow> rat option \<Rightarrow> int option \<Rightarrow>
   ('v::{zero,one}, 'm) OutputDevice_scheme \<Rightarrow> error + ('v, 'm) OutputDevice_scheme" where
  "OutputDevice_blink d a on_time off_time n dev =
     (let off_time' = (case off_time of None \<Rightarrow> on_time | Some t \<Rightarrow> t)
      in OutputDevice_start_change d a [(1, on_time), (0, off_time')] n (OutputDevice_off dev))"

subsection \<open>PWMLED.blink\<close>

text \<open>
  The steps that the inner function \<^verbatim>\<open>blink_generator\<close> of \<^verbatim>\<open>PWMLED.blink\<close> yields, in
  order: the fade-in frames, the hold at 1, the fade-out frames, the hold at 0.
  \<^verbatim>\<open>range(k)\<close> is empty for \<open>k \<le> 0\<close>, as \<open>[0..<nat k]\<close> is. Each of \<^verbatim>\<open>fps * fade_in_time\<close>,
  \<^verbatim>\<open>1 / fps\<close>, \<^verbatim>\<open>i * (1 / fps)\<close>, the division by the fade time and the subtraction from 1
  is one floating-point operation.
\<close>

definition blink_generator :: "rat \<Rightarrow> rat \<Rightarrow> rat \<Rightarrow> rat \<Rightarrow> rat \<Rightarrow> rat step list" where
  "blink_generator on_time off_time fade_in_time fade_out_time fps =
     (if fade_in_time > 0
      then map (\<lambda>i. (double (double (of_nat i * double (1 / fps)) / fade_in_time),
                     double (1 / fps)))
             [0..<nat (py_int (double (fps * fade_in_time)))]
      else [])
     @ (if on_time > 0 then [(1, on_time)] else [])
     @ (if fade_out_time > 0
        then map (\<lambda>i. (double (1 - double (double (of_nat i * double (1 / fps)) / fade_out_time)),
                       double (1 / fps)))
               [0..<nat (py_int (double (fps * fade_out_time)))]
        else [])
     @ (if off_time > 0 then [(0, off_time)] else [])"

text \<open>\<^verbatim>\<open>PWMLED.blink(on_time, off_time, fade_in_time, fade_out_time, n, wait, fps)\<close>.\<close>

definition PWMLED_blink ::
  "nat \<Rightarrow> addr \<Rightarrow> rat \<Rightarrow> rat option \<Rightarrow> rat \<Rightarrow> rat option \<Rightarrow> int option \<Rightarrow> rat \<Rightarrow>
   (rat, 'm) OutputDevice_scheme \<Rightarrow> error + (rat, 'm) OutputDevice_scheme" where
  "PWMLED_blink d a on_time off_time fade_in_time fade_out_time n fps dev =
     (let dev1 = OutputDevice_off dev;
          off_time' = (case off_time of None \<Rightarrow> on_time | Some t \<Rightarrow> t);
          fade_out_time' = (case fade_out_time of None \<Rightarrow> fade_in_time | Some t \<Rightarrow> t)
      in OutputDevice_start_change d a
           (blink_generator on_time off_time' fade_in_time fade_out_time' fps) n dev1)"

subsection \<open>The PWM channel registry\<close>

text \<open>Indexing a Python list: a negative index counts from the end.\<close>

definition py_getitem :: "'a list \<Rightarrow> int \<Rightarrow> error + 'a" where
  "py_getitem xs i =
     (if 0 \<le> i \<and> i < int (length xs) then Inr (xs ! nat i)
      else if - int (length xs) \<le> i \<and> i < 0 then Inr (xs ! nat (int (length xs) + i))
      else Inl IndexError)"

text \<open>\<^verbatim>\<open>str\<close> of an integer, which is how an f-string formats it.\<close>

fun str_nat :: "nat \<Rightarrow> string" where
  "str_nat n =
     (if n < 10 then [''0123456789'' ! n]
      else str_nat (n div 10) @ [''0123456789'' ! (n mod 10)])"

declare str_nat.simps [simp del]

definition py_str :: "int \<Rightarrow> string" where
  "py_str i = (if i < 0 then CHR ''-'' # str_nat (nat (- i)) else str_nat (nat i))"

definition PIN_TO_PWM_CHANNEL :: "string list" where
  "PIN_TO_PWM_CHANNEL =
     [''0A'', ''0B'', ''1A'', ''1B'', ''2A'', ''2B'', ''3A'', ''3B'',
      ''4A'', ''4B'', ''5A'', ''5B'', ''6A'', ''6B'', ''7A'', ''7B'',
      ''0A'', ''0B'', ''1A'', ''1B'', ''2A'', ''2B'', ''3A'', ''3B'',
      ''4A'', ''4B'', ''5A'', ''5B'', ''6A'', ''6B'']"

text \<open>
  The class attribute \<^verbatim>\<open>PWMOutputDevice._channels_used\<close>, one dictionary for the whole
  program: from a channel to the pin number that holds it.
\<close>

type_synonym registry = "string \<rightharpoonup> int"

text \<open>The class body sets \<^verbatim>\<open>_channels_used = {}\<close>.\<close>

definition channels_used_initial :: registry where
  "channels_used_initial = Map.empty"

text \<open>
  \<^verbatim>\<open>PWMOutputDevice._check_pwm_channel\<close>. The registry is returned with the outcome,
  so that its content after an exception is part of the result.
\<close>

definition check_pwm_channel :: "int \<Rightarrow> registry \<Rightarrow> (error + unit) \<times> registry" where
  "check_pwm_channel pin_num used =
     (case py_getitem PIN_TO_PWM_CHANNEL pin_num of
        Inl e \<Rightarrow> (Inl e, used)
      | Inr channel \<Rightarrow>
          (case used channel of
             Some holder \<Rightarrow>
               (Inl (PWMChannelAlreadyInUse
                      (''PWM channel '' @ channel @ '' is already in use by pin '' @ py_str holder)),
                used)
           | None \<Rightarrow> (Inr (), used(channel \<mapsto> pin_num))))"

record 'v PWMOutputDevice = "'v OutputDevice" +
  pin_num :: int

text \<open>
  \<^verbatim>\<open>PWMOutputDevice.__init__\<close>: the check comes first, then the attributes and
  \<^verbatim>\<open>OutputDevice.__init__\<close>. The platform's \<^verbatim>\<open>PWM(Pin(pin))\<close> is taken to succeed.
\<close>

definition PWMOutputDevice_init ::
  "int \<Rightarrow> 'v \<Rightarrow> registry \<Rightarrow> (error + 'v PWMOutputDevice) \<times> registry" where
  "PWMOutputDevice_init pin initial_value used =
     (case check_pwm_channel pin used of
        (Inl e, used') \<Rightarrow> (Inl e, used')
      | (Inr _, used') \<Rightarrow>
          (Inr \<lparr>changers = (\<lambda>_. idle_changer), value_changer = None,
                writes = [initial_value], pin_num = pin\<rparr>, used'))"

text \<open>
  \<^verbatim>\<open>PWMOutputDevice.close\<close>: \<^verbatim>\<open>super().close()\<close>, then
  \<^verbatim>\<open>del PWMOutputDevice._channels_used[PWMOutputDevice.PIN_TO_PWM_CHANNEL[self._pin_num]]\<close>,
  which raises \<^verbatim>\<open>KeyError\<close> when the key is absent. The result is the exception raised,
  if any, with the device and the registry as the call leaves them.
\<close>

definition PWMOutputDevice_close ::
  "'v::zero PWMOutputDevice \<Rightarrow> registry \<Rightarrow> error option \<times> 'v PWMOutputDevice \<times> registry" where
  "PWMOutputDevice_close dev used =
     (let dev1 = OutputDevice_close dev
      in case py_getitem PIN_TO_PWM_CHANNEL (pin_num dev1) of
           Inl e \<Rightarrow> (Some e, dev1, used)
         | Inr channel \<Rightarrow>
             (if used channel = None then (Some KeyError, dev1, used)
              else (None, dev1, used(channel := None))))"

text \<open>
  \<^verbatim>\<open>PWMLED.__init__\<close> sets the brightness to 1 and calls \<^verbatim>\<open>PWMOutputDevice.__init__\<close>;
  the factory \<^verbatim>\<open>LED(pin)\<close> returns a \<^verbatim>\<open>PWMLED\<close> by default, with \<^verbatim>\<open>initial_value=False\<close>.
  The module creates \<^verbatim>\<open>pico_led = LED(25)\<close> when it is imported, on an empty registry.
\<close>

definition PWMLED_init :: "int \<Rightarrow> rat \<Rightarrow> registry \<Rightarrow> (error + rat PWMOutputDevice) \<times> registry" where
  "PWMLED_init pin initial_value used = PWMOutputDevice_init pin initial_value used"

definition pico_led :: "(error + rat PWMOutputDevice) \<times> registry" where
  "pico_led = PWMLED_init 25 0 channels_used_initial"

subsection \<open>PWMBuzzer\<close>

text \<open>The class attribute \<^verbatim>\<open>PWMBuzzer.NOTES\<close>, in the order of the source.\<close>

definition NOTES :: "(string \<times> int) list" where
  "NOTES =
     [(''b0'', 31), (''c1'', 33), (''c#1'', 35), (''d1'', 37), (''d#1'', 39), (''e1'', 41),
      (''f1'', 44), (''f#1'', 46), (''g1'', 49), (''g#1'', 52), (''a1'', 55),
      (''a#1'', 58), (''b1'', 62), (''c2'', 65), (''c#2'', 69), (''d2'', 73), (''d#2'', 78),
      (''e2'', 82), (''f2'', 87), (''f#2'', 93), (''g2'', 98), (''g#2'', 104), (''a2'', 110),
      (''a#2'', 117), (''b2'', 123),
      (''c3'', 131), (''c#3'', 139), (''d3'', 147), (''d#3'', 156), (''e3'', 165), (''f3'', 175),
      (''f#3'', 185), (''g3'', 196), (''g#3'', 208), (''a3'', 220), (''a#3'', 233), (''b3'', 247),
      (''c4'', 262), (''c#4'', 277), (''d4'', 294), (''d#4'', 311), (''e4'', 330), (''f4'', 349),
      (''f#4'', 370), (''g4'', 392), (''g#4'', 415), (''a4'', 440), (''a#4'', 466), (''b4'', 494),
      (''c5'', 523), (''c#5'', 554), (''d5'', 587), (''d#5'', 622), (''e5'', 659), (''f5'', 698),
      (''f#5'', 740), (''g5'', 784), (''g#5'', 831), (''a5'', 880), (''a#5'', 932), (''b5'', 988),
      (''c6'', 1047), (''c#6'', 1109), (''d6'', 1175), (''d#6'', 1245), (''e6'', 1319),
      (''f6'', 1397), (''f#6'', 1480), (''g6'', 1568), (''g#6'', 1661), (''a6'', 1760),
      (''a#6'', 1865), (''b6'', 1976),
      (''c7'', 2093), (''c#7'', 2217), (''d7'', 2349), (''d#7'', 2489),
      (''e7'', 2637), (''f7'', 2794), (''f#7'', 2960), (''g7'', 3136), (''g#7'', 3322),
      (''a7'', 3520), (''a#7'', 3729), (''b7'', 3951),
      (''c8'', 4186), (''c#8'', 4435), (''d8'', 4699), (''d#8'', 4978)]"

text \<open>
  What \<^verbatim>\<open>_to_freq\<close> is given and what it returns: \<^verbatim>\<open>None\<close>, a string, an \<^verbatim>\<open>int\<close> or a
  \<^verbatim>\<open>float\<close>.
\<close>

datatype freq_arg = NoneArg | Str string | IntNum int | FloatNum rat

text \<open>
  \<^verbatim>\<open>PWMBuzzer._to_freq\<close>. \<^verbatim>\<open>self.NOTES[freq]\<close> raises \<^verbatim>\<open>KeyError\<close> for a name that is
  not in the table. The power \<^verbatim>\<open>**\<close> of two floats is the \<^verbatim>\<open>pow\<close> of the platform's C
  library, which IEEE 754 does not pin down to the last bit: it is the parameter
  \<open>pow\<close>. \<^verbatim>\<open>1/12\<close> is a division of two \<^verbatim>\<open>int\<close>s and \<^verbatim>\<open>freq - 69\<close> is exact for an \<^verbatim>\<open>int\<close>.
\<close>

definition to_freq :: "(rat \<Rightarrow> rat \<Rightarrow> rat) \<Rightarrow> freq_arg \<Rightarrow> error + freq_arg" where
  "to_freq pow freq =
     (case freq of
        NoneArg \<Rightarrow> Inr NoneArg
      | Str name \<Rightarrow>
          (if name = [] then Inr NoneArg
           else case map_of NOTES name of
                  None \<Rightarrow> Inl KeyError
                | Some f \<Rightarrow> Inr (IntNum f))
      | IntNum n \<Rightarrow>
          (if n = 0 then Inr NoneArg
           else if n \<le> 128 \<and> n > 0
           then (let midi_factor = pow 2 (double (1 / 12))
                 in Inr (IntNum (py_int (double (440 * pow midi_factor (of_int (n - 69)))))))
           else Inr (IntNum n))
      | FloatNum x \<Rightarrow>
          (if x = 0 then Inr NoneArg
           else if x \<le> 128 \<and> x > 0
           then (let midi_factor = pow 2 (double (1 / 12))
                 in Inr (IntNum (py_int (double (440 * pow midi_factor (double (x - 69)))))))
           else Inr (FloatNum x)))"

subsection \<open>Auxiliary notions for the proofs\<close>

text \<open>
  The object \<open>a\<close> is running with an armed timer, was made from the generator \<open>steps\<close>,
  has \<open>rest\<close> still to yield in the current cycle, and its repeat count is \<open>k\<close>.
\<close>

definition playing ::
  "addr \<Rightarrow> 'v step list \<Rightarrow> 'v step list \<Rightarrow> int option \<Rightarrow> ('v, 'm) OutputDevice_scheme \<Rightarrow> bool"
where
  "playing a steps rest k dev \<longleftrightarrow>
     vc_generator (changers dev a) = steps \<and> vc_gen (changers dev a) = rest \<and>
     vc_n (changers dev a) = k \<and> vc_running (changers dev a) \<and>
     vc_timer (changers dev a) \<noteq> None"

text \<open>A repeat count that decrementing never takes to exactly zero.\<close>

definition unending :: "int option \<Rightarrow> bool" where
  "unending k = (case k of None \<Rightarrow> True | Some j \<Rightarrow> j \<le> 0)"

section \<open>Properties\<close>

subsection \<open>Rounding\<close>

lemma bit_length_bounds:
  "0 < n \<Longrightarrow> 2 ^ (bit_length n - 1) \<le> n \<and> n < 2 ^ bit_length n"
proof (induction n rule: bit_length.induct)
  case (1 n)
  show ?case
  proof (cases "n div 2 \<le> 0")
    case True
    with "1.prems" have "n = 1" by simp
    then show ?thesis
      by (simp add: bit_length.simps [of 1] bit_length.simps [of 0])
  next
    case False
    then have pos: "0 < n div 2" by simp
    with "1.IH" "1.prems" have ih: "2 ^ (bit_length (n div 2) - 1) \<le> n div 2"
      "n div 2 < 2 ^ bit_length (n div 2)"
      by simp_all
    have b: "bit_length n = Suc (bit_length (n div 2))"
      using "1.prems" by (subst bit_length.simps) simp
    have b1: "0 < bit_length (n div 2)"
      using pos by (subst bit_length.simps) simp
    then have "(2 :: int) ^ (bit_length n - 1) = 2 * 2 ^ (bit_length (n div 2) - 1)"
      unfolding b by (cases "bit_length (n div 2)") simp_all
    also have "\<dots> \<le> 2 * (n div 2)"
      using ih(1) by simp
    also have "\<dots> \<le> n" by simp
    finally have lo: "2 ^ (bit_length n - 1) \<le> n" .
    have "n < 2 * (n div 2) + 2" by simp
    also have "\<dots> \<le> 2 * 2 ^ bit_length (n div 2)"
      using ih(2) by simp
    finally have "n < 2 ^ bit_length n"
      unfolding b by simp
    with lo show ?thesis by simp
  qed
qed

lemma ilog2_bounds:
  assumes "0 < x"
  shows "2 powi ilog2 x \<le> x \<and> x < 2 powi (ilog2 x + 1)"
proof -
  obtain n d where q: "quotient_of x = (n, d)"
    by (cases "quotient_of x")
  then have d: "0 < d" and x: "x = of_int n / of_int d"
    by (simp_all add: quotient_of_denom_pos quotient_of_div)
  with assms have n: "0 < n"
    by (simp add: zero_less_divide_iff)
  let ?bn = "bit_length n" and ?bd = "bit_length d"
  let ?k = "int ?bn - int ?bd"
  from bit_length_bounds [OF n] bit_length_bounds [OF d]
  have bn: "2 ^ (?bn - 1) \<le> n" "n < 2 ^ ?bn" and bd: "2 ^ (?bd - 1) \<le> d" "d < 2 ^ ?bd"
    by simp_all
  have pn: "0 < ?bn" using n by (subst bit_length.simps) simp
  have pd: "0 < ?bd" using d by (subst bit_length.simps) simp
  have il: "ilog2 x = (if 2 powi ?k \<le> x then ?k else ?k - 1)"
    by (simp add: ilog2_def q Let_def)
  have rn: "(2 :: rat) ^ (?bn - 1) \<le> of_int n" "of_int n < (2 :: rat) ^ ?bn"
    using bn by (metis of_int_le_iff of_int_numeral of_int_power, metis of_int_less_iff of_int_numeral of_int_power)
  have rd: "(2 :: rat) ^ (?bd - 1) \<le> of_int d" "of_int d < (2 :: rat) ^ ?bd"
    using bd by (metis of_int_le_iff of_int_numeral of_int_power, metis of_int_less_iff of_int_numeral of_int_power)
  have dpos: "(0 :: rat) < of_int d" using d by simp
  have up: "x < 2 powi (?k + 1)"
  proof -
    have "x * of_int d = of_int n" using x dpos by simp
    also have "\<dots> < 2 ^ ?bn" by (rule rn(2))
    also have "\<dots> = 2 powi (?k + 1) * 2 ^ (?bd - 1)"
    proof -
      have e: "?k + 1 + int (?bd - 1) = int ?bn" using pd by simp
      have "(2 :: rat) powi (?k + 1 + int (?bd - 1)) = 2 powi (?k + 1) * 2 powi int (?bd - 1)"
        by (rule power_int_add) simp
      then have "(2 :: rat) powi (?k + 1) * 2 powi int (?bd - 1) = 2 powi int ?bn"
        by (simp only: e)
      then show ?thesis by (simp only: power_int_of_nat)
    qed
    also have "\<dots> \<le> 2 powi (?k + 1) * of_int d"
      using rd(1) by (intro mult_left_mono) simp_all
    finally show ?thesis using dpos by simp
  qed
  have lo: "2 powi (?k - 1) \<le> x"
  proof -
    have "(2 :: rat) powi (?k - 1) * of_int d \<le> 2 powi (?k - 1) * 2 ^ ?bd"
        using rd(2) by (intro mult_left_mono) simp_all
    also have "\<dots> = 2 ^ (?bn - 1)"
    proof -
      have e: "?k - 1 + int ?bd = int (?bn - 1)" using pn by simp
      have "(2 :: rat) powi (?k - 1 + int ?bd) = 2 powi (?k - 1) * 2 powi int ?bd"
        by (rule power_int_add) simp
      then have "(2 :: rat) powi (?k - 1) * 2 powi int ?bd = 2 powi int (?bn - 1)"
        by (simp only: e)
      then show ?thesis by (simp only: power_int_of_nat)
    qed
    also have "\<dots> \<le> of_int n" by (rule rn(1))
    also have "\<dots> = x * of_int d" using x dpos by simp
    finally show ?thesis using dpos by simp
  qed
  show ?thesis
  proof (cases "2 powi ?k \<le> x")
    case True
    with il up show ?thesis by simp
  next
    case False
    with il lo show ?thesis by simp
  qed
qed

lemma ilog2_unique:
  assumes "2 powi k \<le> x" and "x < 2 powi (k + 1)"
  shows "ilog2 x = k"
proof -
  have "(0 :: rat) < 2 powi k" by simp
  with assms(1) have pos: "0 < x" by linarith
  from ilog2_bounds [OF pos] have b: "2 powi ilog2 x \<le> x" "x < 2 powi (ilog2 x + 1)"
    by simp_all
  have "(2 :: rat) powi k < 2 powi (ilog2 x + 1)"
    using assms(1) b(2) by simp
  then have "k < ilog2 x + 1"
    by (metis not_less power_int_increasing one_le_numeral)
  moreover have "(2 :: rat) powi ilog2 x < 2 powi (k + 1)"
    using assms(2) b(1) by simp
  then have "ilog2 x < k + 1"
    by (metis not_less power_int_increasing one_le_numeral)
  ultimately show ?thesis by simp
qed

lemma fl_eval:
  assumes "2 powi k \<le> \<bar>x\<bar>" and "\<bar>x\<bar> < 2 powi (k + 1)"
  shows "fl p x = sgn x * of_int (round_half_even (\<bar>x\<bar> / 2 powi (k - (int p - 1))))
                   * 2 powi (k - (int p - 1))"
proof -
  have "(0 :: rat) < 2 powi k" by simp
  with assms(1) have "0 < \<bar>x\<bar>" by linarith
  then have "x \<noteq> 0" by simp
  then show ?thesis
    by (simp add: fl_def Let_def ilog2_unique [OF assms])
qed

lemma round_half_even_near:
  assumes "\<bar>y - of_int m\<bar> < 1 / 2"
  shows "round_half_even y = m"
proof (cases "of_int m \<le> y")
  case True
  with assms have "y < of_int m + 1 / 2" by linarith
  with True have f: "\<lfloor>y\<rfloor> = m" by (intro floor_unique) linarith+
  with assms True show ?thesis
    by (simp add: round_half_even_def Let_def)
next
  case False
  with assms have y: "of_int m - 1 / 2 < y" "y < of_int m" by linarith+
  then have f: "\<lfloor>y\<rfloor> = m - 1" by (intro floor_unique) (simp, linarith)+
  with y show ?thesis
    by (simp add: round_half_even_def Let_def)
qed

lemma double_eq:
  assumes "2 powi k \<le> \<bar>x\<bar>" and "\<bar>x\<bar> < 2 powi (k + 1)"
    and "\<bar>\<bar>x\<bar> / 2 powi (k - 52) - of_int m\<bar> < 1 / 2"
    and "y = sgn x * of_int m * 2 powi (k - 52)"
  shows "double x = y"
  using fl_eval [OF assms(1,2), of 53] round_half_even_near [OF assms(3)] assms(4)
  by (simp add: double_def)

lemma double_0: "double 0 = 0"
  by (simp add: double_def fl_def)

lemma round_half_even_tie:
  assumes "y = of_int f + 1 / 2"
  shows "round_half_even y = (if even f then f else f + 1)"
proof -
  have "\<lfloor>y\<rfloor> = f"
    unfolding assms by (intro floor_unique) simp_all
  then show ?thesis
    by (simp add: round_half_even_def Let_def assms)
qed

lemma double_eq_tie:
  assumes "2 powi k \<le> \<bar>x\<bar>" and "\<bar>x\<bar> < 2 powi (k + 1)"
    and "\<bar>x\<bar> / 2 powi (k - 52) = of_int f + 1 / 2"
    and "y = sgn x * of_int (if even f then f else f + 1) * 2 powi (k - 52)"
  shows "double x = y"
  using fl_eval [OF assms(1,2), of 53] round_half_even_tie [OF assms(3)] assms(4)
  by (simp add: double_def)

text \<open>
  The roundings that the examples below go through, each checked against the two
  neighbouring powers of two and the nearest significand.
\<close>

lemma double_at_0: "double (1 / 5) = 3602879701896397 / 18014398509481984"
  by (rule double_eq [where k = "- 3" and m = 7205759403792794]) simp_all

lemma double_at_1: "double (90071992547409925 / 18014398509481984) = 5"
  by (rule double_eq [where k = "2" and m = 5629499534213120]) simp_all

lemma double_at_2: "double (1 / 25) = 5764607523034235 / 144115188075855872"
  by (rule double_eq [where k = "- 5" and m = 5764607523034235]) simp_all

lemma double_at_3: "double (1) = 1"
  by (rule double_eq [where k = "0" and m = 4503599627370496]) simp_all

lemma double_at_4: "double (5764607523034235 / 144115188075855872) = 5764607523034235 / 144115188075855872"
  by (rule double_eq [where k = "- 5" and m = 5764607523034235]) simp_all

lemma double_at_5: "double (5764607523034235 / 28823037615171176) = 7205759403792793 / 36028797018963968"
  by (rule double_eq [where k = "- 3" and m = 7205759403792793]) simp_all

lemma double_at_6: "double (28823037615171175 / 36028797018963968) = 3602879701896397 / 4503599627370496"
  by (rule double_eq [where k = "- 1" and m = 7205759403792794]) simp_all

lemma double_at_7: "double (5764607523034235 / 72057594037927936) = 5764607523034235 / 72057594037927936"
  by (rule double_eq [where k = "- 4" and m = 5764607523034235]) simp_all

lemma double_at_8: "double (5764607523034235 / 14411518807585588) = 7205759403792793 / 18014398509481984"
  by (rule double_eq [where k = "- 2" and m = 7205759403792793]) simp_all

lemma double_at_9: "double (10808639105689191 / 18014398509481984) = 1351079888211149 / 2251799813685248"
  by (rule double_eq_tie [where k = "- 1" and f = 5404319552844595]) simp_all

lemma double_at_10: "double (17293822569102705 / 144115188075855872) = 1080863910568919 / 9007199254740992"
  by (rule double_eq_tie [where k = "- 4" and f = 8646911284551352]) simp_all

lemma double_at_11: "double (2161727821137838 / 3602879701896397) = 5404319552844595 / 9007199254740992"
  by (rule double_eq [where k = "- 1" and m = 5404319552844595]) simp_all

lemma double_at_12: "double (3602879701896397 / 9007199254740992) = 3602879701896397 / 9007199254740992"
  by (rule double_eq [where k = "- 2" and m = 7205759403792794]) simp_all

lemma double_at_13: "double (5764607523034235 / 36028797018963968) = 5764607523034235 / 36028797018963968"
  by (rule double_eq [where k = "- 3" and m = 5764607523034235]) simp_all

lemma double_at_14: "double (5764607523034235 / 7205759403792794) = 7205759403792793 / 9007199254740992"
  by (rule double_eq [where k = "- 1" and m = 7205759403792793]) simp_all

lemma double_at_15: "double (1801439850948199 / 9007199254740992) = 1801439850948199 / 9007199254740992"
  by (rule double_eq [where k = "- 3" and m = 7205759403792796]) simp_all

lemma double_at_16: "double (3 / 10) = 5404319552844595 / 18014398509481984"
  by (rule double_eq [where k = "- 2" and m = 5404319552844595]) simp_all

lemma double_at_17: "double (27021597764222975 / 9007199254740992) = 3"
  by (rule double_eq [where k = "1" and m = 6755399441055744]) simp_all

lemma double_at_18: "double (2 / 25) = 5764607523034235 / 72057594037927936"
  by (rule double_eq [where k = "- 4" and m = 5764607523034235]) simp_all

lemma double_at_19: "double (1000) = 1000"
  by (rule double_eq [where k = "9" and m = 8796093022208000]) simp_all

lemma double_at_20: "double (440) = 440"
  by (rule double_eq [where k = "8" and m = 7740561859543040]) simp_all

lemmas double_examples =
  double_0 double_at_0 double_at_1 double_at_2 double_at_3 double_at_4 double_at_5 double_at_6
  double_at_7 double_at_8 double_at_9 double_at_10 double_at_11 double_at_12 double_at_13
  double_at_14 double_at_15 double_at_16 double_at_17 double_at_18 double_at_19 double_at_20

subsection \<open>Runs of the sequencer\<close>

lemma expiry_step:
  fixes dev :: "('v::zero, 'm) OutputDevice_scheme"
  assumes "playing a steps ((v, s) # rest) k dev"
  shows "\<exists>dev'. timer_expiry (Suc d) a dev = Inr dev' \<and> playing a steps rest k dev'
           \<and> writes dev' = writes dev @ [v]"
  using assms
  by (auto simp add: playing_def timer_expiry_def on_changer_def OutputDevice_write_def)

lemma expiry_restart:
  fixes dev :: "('v::zero, 'm) OutputDevice_scheme"
  assumes "playing a ((v, s) # rest) [] k dev"
    and "k \<noteq> Some 1"
  shows "\<exists>dev'. timer_expiry (Suc (Suc d)) a dev = Inr dev'
           \<and> playing a ((v, s) # rest) rest (map_option (\<lambda>j. j - 1) k) dev'
           \<and> writes dev' = writes dev @ [v]"
  using assms
  by (cases k) (auto simp add: playing_def timer_expiry_def on_changer_def OutputDevice_write_def)

lemma expiry_final:
  fixes dev :: "('v::zero, 'm) OutputDevice_scheme"
  assumes "playing a steps [] (Some 1) dev"
  shows "\<exists>dev'. timer_expiry (Suc d) a dev = Inr dev'
           \<and> \<not> vc_running (changers dev' a) \<and> vc_timer (changers dev' a) = None
           \<and> vc_n (changers dev' a) = Some 0
           \<and> writes dev' = writes dev @ [0]"
  using assms
  by (cases "value_changer dev")
     (auto simp add: playing_def timer_expiry_def on_changer_def OutputDevice_write_def
      OutputDevice_value_setter_def OutputDevice_stop_change_def ValueChange_stop_def Let_def)

lemma timer_expiries_add:
  "timer_expiries m d a dev = Inr dev' \<Longrightarrow>
   timer_expiries (m + m') d a dev = timer_expiries m' d a dev'"
  by (induction m arbitrary: dev) (auto split: sum.splits)

lemma cycle_block:
  fixes xs :: "'a list"
  shows "map (\<lambda>i. xs ! (i mod length xs)) [k * length xs..<length xs + k * length xs] = xs"
proof -
  have "map (\<lambda>i. xs ! (i mod length xs)) (map (\<lambda>i. i + k * length xs) [0..<length xs])
        = map (\<lambda>i. xs ! i) [0..<length xs]"
    unfolding map_map by (rule map_cong) simp_all
  then show ?thesis
    by (simp only: map_add_upt map_nth)
qed

lemma cycle_index:
  "map (\<lambda>i. xs ! (i mod length xs)) [0..<k * length xs] = concat (replicate k xs)"
proof (induction k)
  case 0
  then show ?case by simp
next
  case (Suc k)
  have "[0..<length xs + k * length xs]
          = [0..<k * length xs] @ [k * length xs..<length xs + k * length xs]"
    using upt_add_eq_append [of 0 "k * length xs" "length xs"] by (simp add: add.commute)
  then have "map (\<lambda>i. xs ! (i mod length xs)) [0..<Suc k * length xs]
     = concat (replicate k xs) @ xs"
    using Suc.IH cycle_block [of xs k] by simp
  also have "\<dots> = concat (replicate k xs @ [xs])"
    by simp
  also have "replicate k xs @ [xs] = replicate (Suc k) xs"
    by (simp add: replicate_append_same)
  finally show ?case .
qed

lemma expiry_one:
  fixes dev :: "('v::zero, 'm) OutputDevice_scheme"
  assumes ne: "steps \<noteq> []"
    and pl: "playing a steps (drop p steps) k dev"
    and p: "p \<le> length steps"
    and k: "p = length steps \<longrightarrow> k \<noteq> Some 1"
  shows "\<exists>dev1 p1. timer_expiry (Suc (Suc d)) a dev = Inr dev1
          \<and> playing a steps (drop p1 steps)
               (if p < length steps then k else map_option (\<lambda>j. j - 1) k) dev1
          \<and> p1 = Suc (p mod length steps)
          \<and> writes dev1 = writes dev @ [fst (steps ! (p mod length steps))]"
proof (cases "p < length steps")
  case True
  then have "drop p steps = (fst (steps ! p), snd (steps ! p)) # drop (Suc p) steps"
    by (simp add: Cons_nth_drop_Suc)
  with pl have "playing a steps ((fst (steps ! p), snd (steps ! p)) # drop (Suc p) steps) k dev"
    by simp
  from expiry_step [OF this, of "Suc d"] True show ?thesis
    by simp
next
  case False
  with p have pL: "p = length steps" by simp
  obtain v s tl where steps: "steps = (v, s) # tl"
    using ne by (cases steps) auto
  from pl pL have "playing a ((v, s) # tl) [] k dev"
    by (simp add: steps)
  moreover have "k \<noteq> Some 1" using k pL by simp
  ultimately have "\<exists>dev'. timer_expiry (Suc (Suc d)) a dev = Inr dev'
           \<and> playing a ((v, s) # tl) tl (map_option (\<lambda>j. j - 1) k) dev'
           \<and> writes dev' = writes dev @ [v]"
    by (rule expiry_restart)
  then show ?thesis
    using pL by (simp add: steps)
qed

lemma cycle_shift: "(Suc (p mod n) + i) mod n = (p + Suc i) mod n"
proof -
  have "(Suc (p mod n) + i) mod n = (p mod n + Suc i) mod n" by simp
  also have "\<dots> = (p + Suc i) mod n" by (rule mod_add_left_eq)
  finally show ?thesis .
qed

lemma map_upt_Suc_shift: "map f [0..<Suc m] = f 0 # map (\<lambda>i. f (Suc i)) [0..<m]"
  by (simp add: upt_conv_Cons map_Suc_upt [symmetric] del: upt_Suc)

lemma run_finite:
  fixes dev :: "('v::zero, 'm) OutputDevice_scheme"
  assumes ne: "steps \<noteq> []"
  shows "playing a steps (drop p steps) (Some j) dev \<Longrightarrow> p \<le> length steps \<Longrightarrow> 1 \<le> j \<Longrightarrow>
         int p + int m \<le> j * int (length steps) \<Longrightarrow>
         \<exists>dev' p' j'. timer_expiries m (Suc (Suc d)) a dev = Inr dev'
            \<and> playing a steps (drop p' steps) (Some j') dev' \<and> p' \<le> length steps \<and> 1 \<le> j'
            \<and> j' * int (length steps) - int p' = j * int (length steps) - int p - int m
            \<and> writes dev' = writes dev @ map (\<lambda>i. fst (steps ! ((p + i) mod length steps))) [0..<m]"
proof (induction m arbitrary: dev p j)
  case 0
  then show ?case by auto
next
  case (Suc m)
  let ?L = "length steps"
  let ?j1 = "if p < ?L then j else j - 1"
  let ?p1 = "Suc (p mod ?L)"
  have L: "0 < ?L" using ne by simp
  have j2: "2 \<le> j" if "p = ?L"
  proof -
    have "int ?L * 1 < int ?L * j" using Suc.prems(4) that by (simp add: mult.commute)
    then have "1 < j" using L by (simp only: mult_less_cancel_left_pos of_nat_0_less_iff)
    then show ?thesis by simp
  qed
  then have "p = ?L \<longrightarrow> Some j \<noteq> Some 1" by auto
  from expiry_one [OF ne Suc.prems(1) Suc.prems(2) this, of d]
  obtain dev1 where one:
    "timer_expiry (Suc (Suc d)) a dev = Inr dev1"
    "playing a steps (drop ?p1 steps) (Some ?j1) dev1"
    "writes dev1 = writes dev @ [fst (steps ! (p mod ?L))]"
    by (auto split: if_splits)
  have p1: "?p1 \<le> ?L" using L by (simp add: Suc_leI)
  have j1: "1 \<le> ?j1" using Suc.prems(3) j2 Suc.prems(2) by auto
  have rem: "?j1 * int ?L - int ?p1 = j * int ?L - int p - 1"
  proof (cases "p < ?L")
    case True
    then show ?thesis by simp
  next
    case False
    then have "p = ?L" using Suc.prems(2) by simp
    then show ?thesis by (simp add: algebra_simps)
  qed
  have budget: "int ?p1 + int m \<le> ?j1 * int ?L"
    using rem Suc.prems(4) by linarith
  from Suc.IH [OF one(2) p1 j1 budget] obtain dev' p' j' where rest:
    "timer_expiries m (Suc (Suc d)) a dev1 = Inr dev'"
    "playing a steps (drop p' steps) (Some j') dev'" "p' \<le> ?L" "1 \<le> j'"
    "j' * int ?L - int p' = ?j1 * int ?L - int ?p1 - int m"
    "writes dev' = writes dev1 @ map (\<lambda>i. fst (steps ! ((?p1 + i) mod ?L))) [0..<m]"
    by blast
  have w: "writes dev' = writes dev @ map (\<lambda>i. fst (steps ! ((p + i) mod ?L))) [0..<Suc m]"
    unfolding rest(6) one(3) map_upt_Suc_shift cycle_shift by simp
  have run: "timer_expiries (Suc m) (Suc (Suc d)) a dev = Inr dev'"
    using one(1) rest(1) by simp
  have rem': "j' * int ?L - int p' = j * int ?L - int p - int (Suc m)"
    using rest(5) rem by linarith
  show ?case
    using run rest(2,3,4) rem' w by blast
qed

lemma run_unending:
  fixes dev :: "('v::zero, 'm) OutputDevice_scheme"
  assumes ne: "steps \<noteq> []"
  shows "playing a steps (drop p steps) k dev \<Longrightarrow> p \<le> length steps \<Longrightarrow> unending k \<Longrightarrow>
         \<exists>dev' p' k'. timer_expiries m (Suc (Suc d)) a dev = Inr dev'
            \<and> playing a steps (drop p' steps) k' dev' \<and> p' \<le> length steps \<and> unending k'
            \<and> writes dev' = writes dev @ map (\<lambda>i. fst (steps ! ((p + i) mod length steps))) [0..<m]"
proof (induction m arbitrary: dev p k)
  case 0
  then show ?case by auto
next
  case (Suc m)
  let ?L = "length steps"
  let ?k1 = "if p < ?L then k else map_option (\<lambda>j. j - 1) k"
  let ?p1 = "Suc (p mod ?L)"
  have L: "0 < ?L" using ne by simp
  have "p = ?L \<longrightarrow> k \<noteq> Some 1"
    using Suc.prems(3) by (auto simp add: unending_def)
  from expiry_one [OF ne Suc.prems(1) Suc.prems(2) this, of d]
  obtain dev1 where one:
    "timer_expiry (Suc (Suc d)) a dev = Inr dev1"
    "playing a steps (drop ?p1 steps) ?k1 dev1"
    "writes dev1 = writes dev @ [fst (steps ! (p mod ?L))]"
    by (auto split: if_splits)
  have p1: "?p1 \<le> ?L" using L by (simp add: Suc_leI)
  have k1: "unending ?k1"
    using Suc.prems(3) by (cases k) (simp_all add: unending_def)
  from Suc.IH [OF one(2) p1 k1] obtain dev' p' k' where rest:
    "timer_expiries m (Suc (Suc d)) a dev1 = Inr dev'"
    "playing a steps (drop p' steps) k' dev'" "p' \<le> ?L" "unending k'"
    "writes dev' = writes dev1 @ map (\<lambda>i. fst (steps ! ((?p1 + i) mod ?L))) [0..<m]"
    by blast
  have w: "writes dev' = writes dev @ map (\<lambda>i. fst (steps ! ((p + i) mod ?L))) [0..<Suc m]"
    unfolding rest(5) one(3) map_upt_Suc_shift cycle_shift by simp
  have run: "timer_expiries (Suc m) (Suc (Suc d)) a dev = Inr dev'"
    using one(1) rest(1) by simp
  show ?case
    using run rest(2,3,4) w by blast
qed

lemma start_change_playing:
  fixes dev :: "('v::zero, 'm) OutputDevice_scheme"
  assumes ne: "steps \<noteq> []"
  shows "\<exists>dev1. OutputDevice_start_change (Suc d) a steps k dev = Inr dev1
          \<and> playing a steps (drop 1 steps) k dev1
          \<and> value_changer dev1 = Some a
          \<and> writes dev1 = writes dev @ [fst (steps ! 0)]"
proof -
  obtain v s tl where steps: "steps = (v, s) # tl"
    using ne by (cases steps) auto
  show ?thesis
    by (simp add: steps OutputDevice_start_change_def ValueChange_init_def playing_def
        on_changer_def OutputDevice_write_def)
qed

lemma idle_expiries:
  fixes dev :: "('v::zero, 'm) OutputDevice_scheme"
  shows "vc_timer (changers dev a) = None \<Longrightarrow> timer_expiries m d a dev = Inr dev"
  by (induction m) (simp_all add: timer_expiry_def)

lemma cycle_values:
  assumes "steps \<noteq> []"
  shows "map (\<lambda>i. fst (steps ! (i mod length steps))) [0..<k * length steps]
         = concat (replicate k (map fst steps))"
proof -
  have "map (\<lambda>i. fst (steps ! (i mod length steps))) [0..<k * length steps]
        = map (\<lambda>i. map fst steps ! (i mod length (map fst steps))) [0..<k * length (map fst steps)]"
    using assms by (intro map_cong) simp_all
  then show ?thesis
    by (simp only: cycle_index)
qed

lemma finite_sequence:
  fixes dev :: "('v::zero, 'm) OutputDevice_scheme"
  assumes ne: "steps \<noteq> []" and N: "1 \<le> N" and d: "2 \<le> d"
  shows "\<exists>dev1. OutputDevice_start_change d a steps (Some N) dev = Inr dev1
      \<and> (\<forall>m < nat N * length steps. \<exists>dev'. timer_expiries m d a dev1 = Inr dev'
             \<and> vc_running (changers dev' a) \<and> vc_timer (changers dev' a) \<noteq> None
             \<and> writes dev' = writes dev @ map (\<lambda>i. fst (steps ! (i mod length steps))) [0..<Suc m])
      \<and> (\<exists>dev'. timer_expiries (nat N * length steps) d a dev1 = Inr dev'
             \<and> \<not> vc_running (changers dev' a) \<and> vc_timer (changers dev' a) = None
             \<and> writes dev' = writes dev @ concat (replicate (nat N) (map fst steps)) @ [0]
             \<and> (\<forall>m. timer_expiries m d a dev' = Inr dev'))"
proof -
  let ?L = "length steps"
  obtain d' where d': "d = Suc (Suc d')"
    using d by (metis Suc_le_D numeral_2_eq_2 add_2_eq_Suc le_Suc_ex)
  have L: "0 < ?L" using ne by simp
  from start_change_playing [OF ne, of "Suc d'" a "Some N" dev] obtain dev1 where start:
    "OutputDevice_start_change d a steps (Some N) dev = Inr dev1"
    "playing a steps (drop 1 steps) (Some N) dev1"
    "writes dev1 = writes dev @ [fst (steps ! 0)]"
    unfolding d' by blast
  have one: "1 \<le> ?L" using ne by (cases steps) simp_all
  have NL: "int (nat N * ?L) = N * int ?L" using N by simp
  have run: "\<exists>dev' p' j'. timer_expiries m d a dev1 = Inr dev'
            \<and> playing a steps (drop p' steps) (Some j') dev' \<and> p' \<le> ?L \<and> 1 \<le> j'
            \<and> j' * int ?L - int p' = N * int ?L - int 1 - int m
            \<and> writes dev' = writes dev @ map (\<lambda>i. fst (steps ! (i mod ?L))) [0..<Suc m]"
    if m: "m < nat N * ?L" for m
  proof -
    have "int 1 + int m \<le> N * int ?L" using m NL by linarith
    from run_finite [OF ne start(2) one N this, of d'] obtain dev' p' j' where r:
      "timer_expiries m d a dev1 = Inr dev'"
      "playing a steps (drop p' steps) (Some j') dev'" "p' \<le> ?L" "1 \<le> j'"
      "j' * int ?L - int p' = N * int ?L - int 1 - int m"
      "writes dev' = writes dev1 @ map (\<lambda>i. fst (steps ! ((1 + i) mod ?L))) [0..<m]"
      unfolding d' by blast
    have "writes dev' = writes dev @ map (\<lambda>i. fst (steps ! (i mod ?L))) [0..<Suc m]"
      unfolding r(6) start(3) map_upt_Suc_shift using L by simp
    with r show ?thesis by blast
  qed
  have part1: "\<forall>m < nat N * ?L. \<exists>dev'. timer_expiries m d a dev1 = Inr dev'
             \<and> vc_running (changers dev' a) \<and> vc_timer (changers dev' a) \<noteq> None
             \<and> writes dev' = writes dev @ map (\<lambda>i. fst (steps ! (i mod ?L))) [0..<Suc m]"
    using run unfolding playing_def by blast
  have pos: "0 < nat N * ?L" using N L by simp
  then obtain m where m: "nat N * ?L = Suc m"
    by (cases "nat N * ?L") simp_all
  then have "m < nat N * ?L" by simp
  from run [OF this] obtain dev2 p' j' where r:
      "timer_expiries m d a dev1 = Inr dev2"
      "playing a steps (drop p' steps) (Some j') dev2" "p' \<le> ?L" "1 \<le> j'"
      "j' * int ?L - int p' = N * int ?L - int 1 - int m"
      "writes dev2 = writes dev @ map (\<lambda>i. fst (steps ! (i mod ?L))) [0..<Suc m]"
    by blast
  have "N * int ?L = int (Suc m)" using NL m by simp
  then have eq: "j' * int ?L = int p'" using r(5) by simp
  have j': "j' = 1"
  proof (rule ccontr)
    assume "j' \<noteq> 1"
    then have "2 \<le> j'" using r(4) by simp
    then have "2 * int ?L \<le> j' * int ?L" by (intro mult_right_mono) simp_all
    then show False using eq r(3) L by simp
  qed
  then have p': "p' = ?L" using eq by simp
  from r(2) have "playing a steps [] (Some 1) dev2" by (simp add: j' p')
  from expiry_final [OF this, of "Suc d'"] obtain dev3 where fin:
    "timer_expiry d a dev2 = Inr dev3"
    "\<not> vc_running (changers dev3 a)" "vc_timer (changers dev3 a) = None"
    "writes dev3 = writes dev2 @ [0]"
    unfolding d' by blast
  have "timer_expiries (m + 1) d a dev1 = timer_expiries 1 d a dev2"
    using r(1) by (rule timer_expiries_add)
  then have total: "timer_expiries (nat N * ?L) d a dev1 = Inr dev3"
    using fin(1) m by simp
  have "writes dev3 = writes dev @ concat (replicate (nat N) (map fst steps)) @ [0]"
    using fin(4) r(6) cycle_values [OF ne, of "nat N"] m by simp
  moreover have "\<forall>m. timer_expiries m d a dev3 = Inr dev3"
    using idle_expiries [OF fin(3)] by blast
  ultimately show ?thesis
    using start(1) part1 total fin(2,3) by blast
qed

lemma unending_sequence:
  fixes dev :: "('v::zero, 'm) OutputDevice_scheme"
  assumes ne: "steps \<noteq> []" and k: "unending k" and d: "2 \<le> d"
  shows "\<exists>dev1. OutputDevice_start_change d a steps k dev = Inr dev1
      \<and> (\<forall>m. \<exists>dev'. timer_expiries m d a dev1 = Inr dev'
             \<and> vc_running (changers dev' a) \<and> vc_timer (changers dev' a) \<noteq> None
             \<and> writes dev' = writes dev @ map (\<lambda>i. fst (steps ! (i mod length steps))) [0..<Suc m])"
proof -
  let ?L = "length steps"
  obtain d' where d': "d = Suc (Suc d')"
    using d by (metis Suc_le_D numeral_2_eq_2 add_2_eq_Suc le_Suc_ex)
  have L: "0 < ?L" using ne by simp
  from start_change_playing [OF ne, of "Suc d'" a k dev] obtain dev1 where start:
    "OutputDevice_start_change d a steps k dev = Inr dev1"
    "playing a steps (drop 1 steps) k dev1"
    "writes dev1 = writes dev @ [fst (steps ! 0)]"
    unfolding d' by blast
  have one: "1 \<le> ?L" using ne by (cases steps) simp_all
  have "\<exists>dev'. timer_expiries m d a dev1 = Inr dev'
             \<and> vc_running (changers dev' a) \<and> vc_timer (changers dev' a) \<noteq> None
             \<and> writes dev' = writes dev @ map (\<lambda>i. fst (steps ! (i mod ?L))) [0..<Suc m]" for m
  proof -
    from run_unending [OF ne start(2) one k, of m d'] obtain dev' p' k' where r:
      "timer_expiries m d a dev1 = Inr dev'"
      "playing a steps (drop p' steps) k' dev'"
      "writes dev' = writes dev1 @ map (\<lambda>i. fst (steps ! ((1 + i) mod ?L))) [0..<m]"
      unfolding d' by blast
    have "writes dev' = writes dev @ map (\<lambda>i. fst (steps ! (i mod ?L))) [0..<Suc m]"
      unfolding r(3) start(3) map_upt_Suc_shift using L by simp
    with r show ?thesis unfolding playing_def by blast
  qed
  with start(1) show ?thesis by blast
qed

text \<open>
  C1. Let the generator yield a fixed, non-empty, finite list \<open>steps\<close> each time it is
  called, let the repeat count be \<open>N \<ge> 1\<close>, and let the callback have at least two stack
  frames. Starting the sequencer applies the first step. After \<open>m\<close> timer expiries, for
  every \<open>m\<close> below \<open>N * length steps\<close>, the sequencer is running with its timer armed and
  has written the first \<open>m + 1\<close> step values of the cyclic repetition of \<open>steps\<close>. The
  expiry number \<open>N * length steps\<close> finds the last cycle exhausted: by then exactly the
  step values of \<open>N\<close> cycles have been written, the neutral value 0 is written after
  them, the sequencer is not running and its timer is not armed, and any further expiries
  change nothing. With the repeat count \<^verbatim>\<open>None\<close> the sequencer is running with its timer
  armed after any number of expiries, and everything it has written is a step value of the
  cyclic repetition, at its position: the neutral value is never written.
\<close>

theorem C1_sequencer_repeat_count:
  fixes dev :: "('v::zero, 'm) OutputDevice_scheme"
  assumes "steps \<noteq> []" and "1 \<le> N" and "2 \<le> d"
  shows "(\<exists>dev1. OutputDevice_start_change d a steps (Some N) dev = Inr dev1
      \<and> (\<forall>m < nat N * length steps. \<exists>dev'. timer_expiries m d a dev1 = Inr dev'
             \<and> vc_running (changers dev' a) \<and> vc_timer (changers dev' a) \<noteq> None
             \<and> writes dev' = writes dev @ map (\<lambda>i. fst (steps ! (i mod length steps))) [0..<Suc m])
      \<and> (\<exists>dev'. timer_expiries (nat N * length steps) d a dev1 = Inr dev'
             \<and> \<not> vc_running (changers dev' a) \<and> vc_timer (changers dev' a) = None
             \<and> writes dev' = writes dev @ concat (replicate (nat N) (map fst steps)) @ [0]
             \<and> (\<forall>m. timer_expiries m d a dev' = Inr dev')))
    \<and> (\<exists>dev1. OutputDevice_start_change d a steps None dev = Inr dev1
      \<and> (\<forall>m. \<exists>dev'. timer_expiries m d a dev1 = Inr dev'
             \<and> vc_running (changers dev' a) \<and> vc_timer (changers dev' a) \<noteq> None
             \<and> writes dev' = writes dev @ map (\<lambda>i. fst (steps ! (i mod length steps))) [0..<Suc m]))"
proof
  show "\<exists>dev1. OutputDevice_start_change d a steps (Some N) dev = Inr dev1
      \<and> (\<forall>m < nat N * length steps. \<exists>dev'. timer_expiries m d a dev1 = Inr dev'
             \<and> vc_running (changers dev' a) \<and> vc_timer (changers dev' a) \<noteq> None
             \<and> writes dev' = writes dev @ map (\<lambda>i. fst (steps ! (i mod length steps))) [0..<Suc m])
      \<and> (\<exists>dev'. timer_expiries (nat N * length steps) d a dev1 = Inr dev'
             \<and> \<not> vc_running (changers dev' a) \<and> vc_timer (changers dev' a) = None
             \<and> writes dev' = writes dev @ concat (replicate (nat N) (map fst steps)) @ [0]
             \<and> (\<forall>m. timer_expiries m d a dev' = Inr dev'))"
    using assms by (rule finite_sequence)
next
  have "unending None" by (simp add: unending_def)
  with assms(1) show "\<exists>dev1. OutputDevice_start_change d a steps None dev = Inr dev1
      \<and> (\<forall>m. \<exists>dev'. timer_expiries m d a dev1 = Inr dev'
             \<and> vc_running (changers dev' a) \<and> vc_timer (changers dev' a) \<noteq> None
             \<and> writes dev' = writes dev @ map (\<lambda>i. fst (steps ! (i mod length steps))) [0..<Suc m])"
    using assms(3) by (rule unending_sequence)
qed

theorem C1_sequencer_repeat_count_witness:
  "[(1, 1), (0, 1 :: rat)] \<noteq> ([] :: rat step list) \<and> (1 :: int) \<le> 2 \<and> (2 :: nat) \<le> 2
   \<and> (\<exists>dev1. OutputDevice_start_change 2 0 [(1, 1), (0, 1)] (Some 2) (OutputDevice_init (0 :: rat)) = Inr dev1
        \<and> (\<exists>dev'. timer_expiries 3 2 0 dev1 = Inr dev' \<and> vc_running (changers dev' 0)
               \<and> writes dev' = [0, 1, 0, 1, 0])
        \<and> (\<exists>dev'. timer_expiries 4 2 0 dev1 = Inr dev' \<and> \<not> vc_running (changers dev' 0)
               \<and> writes dev' = [0, 1, 0, 1, 0, 0]))
   \<and> (\<exists>dev1. OutputDevice_start_change 2 0 [(1, 1), (0, 1)] None (OutputDevice_init (0 :: rat)) = Inr dev1
        \<and> (\<exists>dev'. timer_expiries 5 2 0 dev1 = Inr dev' \<and> vc_running (changers dev' 0)
               \<and> writes dev' = [0, 1, 0, 1, 0, 1, 0]))"
proof -
  let ?steps = "[(1, 1), (0, 1)] :: rat step list"
  let ?dev = "OutputDevice_init (0 :: rat)"
  have h: "?steps \<noteq> []" "(1 :: int) \<le> 2" "(2 :: nat) \<le> 2" by simp_all
  have up: "map (\<lambda>i. fst (?steps ! (i mod length ?steps))) [0..<Suc 3] = [1, 0, 1, 0]"
    "map (\<lambda>i. fst (?steps ! (i mod length ?steps))) [0..<Suc 5] = [1, 0, 1, 0, 1, 0]"
    by code_simp+
  note c = C1_sequencer_repeat_count [OF h, of 0 ?dev]
  from c obtain dev1 where fin:
    "OutputDevice_start_change 2 0 ?steps (Some 2) ?dev = Inr dev1"
    "\<forall>m < nat 2 * length ?steps. \<exists>dev'. timer_expiries m 2 0 dev1 = Inr dev'
             \<and> vc_running (changers dev' 0) \<and> vc_timer (changers dev' 0) \<noteq> None
             \<and> writes dev' = writes ?dev @ map (\<lambda>i. fst (?steps ! (i mod length ?steps))) [0..<Suc m]"
    "\<exists>dev'. timer_expiries (nat 2 * length ?steps) 2 0 dev1 = Inr dev'
             \<and> \<not> vc_running (changers dev' 0) \<and> vc_timer (changers dev' 0) = None
             \<and> writes dev' = writes ?dev @ concat (replicate (nat 2) (map fst ?steps)) @ [0]
             \<and> (\<forall>m. timer_expiries m 2 0 dev' = Inr dev')"
    by blast
  have "(3 :: nat) < nat 2 * length ?steps" by simp
  with fin(2) have "\<exists>dev'. timer_expiries 3 2 0 dev1 = Inr dev'
             \<and> vc_running (changers dev' 0) \<and> vc_timer (changers dev' 0) \<noteq> None
             \<and> writes dev' = writes ?dev @ map (\<lambda>i. fst (?steps ! (i mod length ?steps))) [0..<Suc 3]"
    by blast
  then obtain dev3 where d3: "timer_expiries 3 2 0 dev1 = Inr dev3" "vc_running (changers dev3 0)"
     "writes dev3 = writes ?dev @ map (\<lambda>i. fst (?steps ! (i mod length ?steps))) [0..<Suc 3]"
    by blast
  have "writes dev3 = [0, 1, 0, 1, 0]"
    unfolding d3(3) up by (simp add: OutputDevice_init_def)
  with d3 have a: "\<exists>dev'. timer_expiries 3 2 0 dev1 = Inr dev' \<and> vc_running (changers dev' 0)
               \<and> writes dev' = [0, 1, 0, 1, 0]"
    by blast
  from fin(3) obtain dev4 where d4: "timer_expiries (nat 2 * length ?steps) 2 0 dev1 = Inr dev4"
     "\<not> vc_running (changers dev4 0)"
     "writes dev4 = writes ?dev @ concat (replicate (nat 2) (map fst ?steps)) @ [0]"
    by blast
  have "writes dev4 = [0, 1, 0, 1, 0, 0]"
    unfolding d4(3) by (simp add: OutputDevice_init_def numeral_2_eq_2)
  moreover have "timer_expiries 4 2 0 dev1 = Inr dev4"
    using d4(1) by simp
  ultimately have b: "\<exists>dev'. timer_expiries 4 2 0 dev1 = Inr dev' \<and> \<not> vc_running (changers dev' 0)
               \<and> writes dev' = [0, 1, 0, 1, 0, 0]"
    using d4(2) by blast
  from c obtain dev2 where inf:
    "OutputDevice_start_change 2 0 ?steps None ?dev = Inr dev2"
    "\<forall>m. \<exists>dev'. timer_expiries m 2 0 dev2 = Inr dev'
             \<and> vc_running (changers dev' 0) \<and> vc_timer (changers dev' 0) \<noteq> None
             \<and> writes dev' = writes ?dev @ map (\<lambda>i. fst (?steps ! (i mod length ?steps))) [0..<Suc m]"
    by blast
  from inf(2) obtain dev5 where d5: "timer_expiries 5 2 0 dev2 = Inr dev5"
     "vc_running (changers dev5 0)"
     "writes dev5 = writes ?dev @ map (\<lambda>i. fst (?steps ! (i mod length ?steps))) [0..<Suc 5]"
    by blast
  have "writes dev5 = [0, 1, 0, 1, 0, 1, 0]"
    unfolding d5(3) up by (simp add: OutputDevice_init_def)
  with d5 have e: "\<exists>dev'. timer_expiries 5 2 0 dev2 = Inr dev' \<and> vc_running (changers dev' 0)
               \<and> writes dev' = [0, 1, 0, 1, 0, 1, 0]"
    by blast
  show ?thesis
    using h fin(1) a b inf(1) e by blast
qed

subsection \<open>Stopping\<close>

lemma changers_on_changer:
  "changers (on_changer a f dev) b = (if b = a then f (changers dev a) else changers dev b)"
  by (simp add: on_changer_def)

lemma writes_on_changer: "writes (on_changer a f dev) = writes dev"
  by (simp add: on_changer_def)

lemma value_changer_on_changer: "value_changer (on_changer a f dev) = value_changer dev"
  by (simp add: on_changer_def)

lemma on_changer_twice: "on_changer a f (on_changer a g dev) = on_changer a (f \<circ> g) dev"
  by (simp add: on_changer_def)

lemma ValueChange_stop_idle:
  assumes "\<not> vc_running (changers dev a)" and "vc_timer (changers dev a) = None"
  shows "ValueChange_stop a dev = dev"
proof -
  have "(changers dev a)\<lparr>vc_running := False, vc_timer := None\<rparr> = changers dev a"
    using assms by (cases "changers dev a") simp
  then show ?thesis
    by (simp add: ValueChange_stop_def on_changer_def)
qed

text \<open>
  C3. \<^verbatim>\<open>ValueChange.stop\<close> is idempotent and touches nothing but the running flag and
  the timer of its object: a second \<^verbatim>\<open>stop\<close> changes nothing, \<^verbatim>\<open>stop\<close> on an object that
  is not running and whose timer is not armed (a sequence that has completed) changes
  nothing at all, the values written to the device and the attribute
  \<^verbatim>\<open>_value_changer\<close> are as before, and after \<^verbatim>\<open>stop\<close> both a call of the callback
  \<^verbatim>\<open>_set_value\<close> and an expiry of the timer return without an exception, without a
  write and without arming the timer.
\<close>

theorem C3_stop_idempotent:
  fixes dev :: "('v::zero, 'm) OutputDevice_scheme"
  shows "ValueChange_stop a (ValueChange_stop a dev) = ValueChange_stop a dev
       \<and> (\<not> vc_running (changers dev a) \<and> vc_timer (changers dev a) = None
            \<longrightarrow> ValueChange_stop a dev = dev)
       \<and> writes (ValueChange_stop a dev) = writes dev
       \<and> value_changer (ValueChange_stop a dev) = value_changer dev
       \<and> \<not> vc_running (changers (ValueChange_stop a dev) a)
       \<and> vc_timer (changers (ValueChange_stop a dev) a) = None
       \<and> ValueChange_set_value (Suc d) a (ValueChange_stop a dev) = Inr (ValueChange_stop a dev)
       \<and> timer_expiry (Suc d) a (ValueChange_stop a dev) = Inr (ValueChange_stop a dev)"
  using ValueChange_stop_idle [of dev a]
  by (simp add: ValueChange_stop_def on_changer_def timer_expiry_def)

theorem C3_stop_idempotent_witness:
  "\<not> vc_running (changers (OutputDevice_init (0 :: rat)) 0)
   \<and> vc_timer (changers (OutputDevice_init (0 :: rat)) 0) = None
   \<and> ValueChange_stop 0 (OutputDevice_init (0 :: rat)) = OutputDevice_init 0
   \<and> timer_expiry 1 0 (ValueChange_stop 0 (OutputDevice_init (0 :: rat))) = Inr (OutputDevice_init 0)"
proof -
  let ?dev = "OutputDevice_init (0 :: rat)"
  have idle: "\<not> vc_running (changers ?dev 0)" "vc_timer (changers ?dev 0) = None"
    by (simp_all add: OutputDevice_init_def idle_changer_def)
  note c = C3_stop_idempotent [of 0 ?dev 0]
  from c idle have same: "ValueChange_stop 0 ?dev = ?dev"
    by blast
  from c have "timer_expiry (Suc 0) 0 (ValueChange_stop 0 ?dev) = Inr (ValueChange_stop 0 ?dev)"
    by blast
  then have "timer_expiry 1 0 (ValueChange_stop 0 ?dev) = Inr ?dev"
    by (simp only: same One_nat_def)
  with idle same show ?thesis
    by blast
qed

subsection \<open>A repeat count of zero\<close>

text \<open>
  C2. The source never looks at the repeat count before the generator is exhausted, and
  then only after it has decremented it. Started with the count 0 on the generator of
  \<^verbatim>\<open>blink\<close>, \<^verbatim>\<open>[(1, 1), (0, 1)]\<close>, the sequencer applies the first step at once (the device,
  which held 0, is written 1) and is running; after two timer expiries the count is
  \<open>-1\<close> and the second cycle has begun; and after any number of expiries it is still
  running with its timer armed. The decrement itself is as the claim says (lemma
  \<open>expiry_restart\<close>: the count \<open>k\<close> becomes \<open>k - 1\<close>, and \<^verbatim>\<open>None\<close> stays \<^verbatim>\<open>None\<close>).
\<close>

theorem C2_repeat_count_zero_runs:
  "\<exists>dev1. OutputDevice_start_change 2 0 [(1, 1), (0, 1)] (Some 0) (OutputDevice_init (0 :: rat)) = Inr dev1
     \<and> writes dev1 = [0, 1] \<and> vc_running (changers dev1 0)
     \<and> (\<exists>dev'. timer_expiries 2 2 0 dev1 = Inr dev' \<and> vc_n (changers dev' 0) = Some (- 1)
            \<and> writes dev' = [0, 1, 0, 1])
     \<and> (\<forall>m. \<exists>dev'. timer_expiries m 2 0 dev1 = Inr dev' \<and> vc_running (changers dev' 0)
            \<and> vc_timer (changers dev' 0) \<noteq> None)"
proof -
  let ?steps = "[(1, 1), (0, 1)] :: rat step list"
  let ?dev = "OutputDevice_init (0 :: rat)"
  have "?steps \<noteq> []" "unending (Some 0)" "(2 :: nat) \<le> 2"
    by (simp_all add: unending_def)
  from unending_sequence [OF this, of 0 ?dev] obtain dev1 where run:
    "OutputDevice_start_change 2 0 ?steps (Some 0) ?dev = Inr dev1"
    "\<forall>m. \<exists>dev'. timer_expiries m 2 0 dev1 = Inr dev'
             \<and> vc_running (changers dev' 0) \<and> vc_timer (changers dev' 0) \<noteq> None
             \<and> writes dev' = writes ?dev @ map (\<lambda>i. fst (?steps ! (i mod length ?steps))) [0..<Suc m]"
    by blast
  from run(2) have "\<exists>dev'. timer_expiries 0 2 0 dev1 = Inr dev'
             \<and> vc_running (changers dev' 0) \<and> vc_timer (changers dev' 0) \<noteq> None
             \<and> writes dev' = writes ?dev @ map (\<lambda>i. fst (?steps ! (i mod length ?steps))) [0..<Suc 0]"
    by blast
  then have first: "writes dev1 = [0, 1]" "vc_running (changers dev1 0)"
    by (simp_all add: OutputDevice_init_def)
  have "OutputDevice_start_change 2 0 ?steps (Some 0) ?dev
        = Inr \<lparr>changers = (\<lambda>_. idle_changer)
                  (0 := \<lparr>vc_generator = ?steps, vc_n = Some 0, vc_gen = [(0, 1)],
                         vc_timer = Some 1000, vc_running = True\<rparr>),
                value_changer = Some 0, writes = [0, 1]\<rparr>"
    by (simp add: OutputDevice_start_change_def ValueChange_init_def numeral_2_eq_2
        on_changer_def OutputDevice_write_def OutputDevice_init_def py_int_def double_examples)
  with run(1) have dev1: "dev1 = \<lparr>changers = (\<lambda>_. idle_changer)
                  (0 := \<lparr>vc_generator = ?steps, vc_n = Some 0, vc_gen = [(0, 1)],
                         vc_timer = Some 1000, vc_running = True\<rparr>),
                value_changer = Some 0, writes = [0, 1]\<rparr>"
    by simp
  have two: "\<exists>dev'. timer_expiries 2 2 0 dev1 = Inr dev' \<and> vc_n (changers dev' 0) = Some (- 1)
            \<and> writes dev' = [0, 1, 0, 1]"
    unfolding dev1
    by (simp add: numeral_2_eq_2 timer_expiry_def on_changer_def OutputDevice_write_def
        py_int_def Let_def double_examples)
  from run(2) have "\<forall>m. \<exists>dev'. timer_expiries m 2 0 dev1 = Inr dev' \<and> vc_running (changers dev' 0)
            \<and> vc_timer (changers dev' 0) \<noteq> None"
    by blast
  with run(1) first two show ?thesis
    by blast
qed

subsection \<open>Recursion depth of the callback\<close>








subsection \<open>Binary blink\<close>

text \<open>
  C8. \<^verbatim>\<open>OutputDevice.blink\<close> without an \<^verbatim>\<open>off_time\<close> takes \<^verbatim>\<open>on_time\<close> for it, whatever
  \<^verbatim>\<open>on_time\<close> is: the generator of the sequencer it starts yields exactly
  \<^verbatim>\<open>[(1, on_time), (0, on_time)]\<close> per cycle, and \<^verbatim>\<open>[(1, on_time), (0, off_time)]\<close> when an
  \<^verbatim>\<open>off_time\<close> is given. For \<^verbatim>\<open>on_time = 1\<close> the cycle is \<^verbatim>\<open>[(1, 1), (0, 1)]\<close>. The device is
  switched off first, and the first step is applied before \<^verbatim>\<open>blink\<close> returns.
\<close>

theorem C8_binary_blink_default_off_time:
  fixes dev :: "('v::{zero,one}, 'm) OutputDevice_scheme"
  shows "(\<exists>dev'. OutputDevice_blink (Suc d) a on_time None n dev = Inr dev'
            \<and> vc_generator (changers dev' a) = [(1, on_time), (0, on_time)]
            \<and> vc_gen (changers dev' a) = [(0, on_time)]
            \<and> vc_n (changers dev' a) = n
            \<and> value_changer dev' = Some a
            \<and> writes dev' = writes dev @ [0, 1])
       \<and> (\<exists>dev'. OutputDevice_blink (Suc d) a on_time (Some off_time) n dev = Inr dev'
            \<and> vc_generator (changers dev' a) = [(1, on_time), (0, off_time)]
            \<and> vc_gen (changers dev' a) = [(0, off_time)])
       \<and> (\<exists>dev'. OutputDevice_blink (Suc d) a 1 None n dev = Inr dev'
            \<and> vc_generator (changers dev' a) = [(1, 1), (0, 1)])"
  by (cases "value_changer dev")
     (simp_all add: OutputDevice_blink_def OutputDevice_start_change_def ValueChange_init_def
      OutputDevice_off_def OutputDevice_value_setter_def OutputDevice_write_def on_changer_def
      OutputDevice_stop_change_def ValueChange_stop_def)

subsection \<open>The PWM channel registry\<close>

lemma init_conflict:
  assumes "py_getitem PIN_TO_PWM_CHANNEL pin = Inr channel" and "used channel = Some holder"
  shows "PWMOutputDevice_init pin v used =
           (Inl (PWMChannelAlreadyInUse
                  (''PWM channel '' @ channel @ '' is already in use by pin '' @ py_str holder)),
            used)"
  using assms by (simp add: PWMOutputDevice_init_def check_pwm_channel_def)

lemma init_free:
  assumes "py_getitem PIN_TO_PWM_CHANNEL pin = Inr channel" and "used channel = None"
  shows "\<exists>dev. PWMOutputDevice_init pin v used = (Inr dev, used(channel \<mapsto> pin))
           \<and> pin_num dev = pin \<and> writes dev = [v] \<and> value_changer dev = None"
  using assms by (simp add: PWMOutputDevice_init_def check_pwm_channel_def)

lemma close_outcome:
  fixes dev :: "'v::zero PWMOutputDevice"
  assumes "py_getitem PIN_TO_PWM_CHANNEL (pin_num dev) = Inr channel"
  shows "PWMOutputDevice_close dev used =
           (if used channel = None then (Some KeyError, OutputDevice_close dev, used)
            else (None, OutputDevice_close dev, used(channel := None)))"
proof -
  have "pin_num (OutputDevice_close dev) = pin_num dev"
    by (cases "value_changer dev")
       (simp_all add: OutputDevice_close_def OutputDevice_value_setter_def OutputDevice_write_def
          OutputDevice_stop_change_def ValueChange_stop_def on_changer_def)
  with assms show ?thesis
    by (simp add: PWMOutputDevice_close_def Let_def)
qed

lemma pin_num_close:
  fixes dev :: "'v::zero PWMOutputDevice"
  shows "pin_num (OutputDevice_close dev) = pin_num dev"
  by (cases "value_changer dev")
     (simp_all add: OutputDevice_close_def OutputDevice_value_setter_def OutputDevice_write_def
        OutputDevice_stop_change_def ValueChange_stop_def on_changer_def)

lemma table_alias:
  "\<forall>p \<in> set [0..13]. py_getitem PIN_TO_PWM_CHANNEL p = Inr (PIN_TO_PWM_CHANNEL ! nat p)
      \<and> py_getitem PIN_TO_PWM_CHANNEL (p + 16) = Inr (PIN_TO_PWM_CHANNEL ! nat p)"
  by code_simp

lemma py_str_examples: "py_str 25 = ''25''" "py_str 2 = ''2''"
  by code_simp+

lemma pin_channels: "py_getitem PIN_TO_PWM_CHANNEL 25 = Inr ''4B''" "py_getitem PIN_TO_PWM_CHANNEL 9 = Inr ''4B''"
  "py_getitem PIN_TO_PWM_CHANNEL 2 = Inr ''1A''" "py_getitem PIN_TO_PWM_CHANNEL 18 = Inr ''1A''"
  by code_simp+

text \<open>
  C4. Let the channel of \<open>pin\<close> be held by a live device: the registry maps it to the pin
  of \<open>live\<close>, whose own channel it is. Then constructing a device on \<open>pin\<close> raises
  \<^verbatim>\<open>PWMChannelAlreadyInUse\<close>, an exception class of its own, whose message names the
  channel and the pin that holds it, and the registry is left exactly as it was: the
  failed construction has registered nothing. Closing \<open>live\<close> raises nothing and removes
  the entry, and on the registry so released the construction on \<open>pin\<close> succeeds and
  registers \<open>pin\<close> as the holder.
\<close>

theorem C4_channel_conflict:
  fixes live :: "'v::zero PWMOutputDevice"
  assumes "py_getitem PIN_TO_PWM_CHANNEL pin = Inr channel"
    and "py_getitem PIN_TO_PWM_CHANNEL (pin_num live) = Inr channel"
    and "used channel = Some (pin_num live)"
  shows "PWMOutputDevice_init pin v used =
           (Inl (PWMChannelAlreadyInUse
                  (''PWM channel '' @ channel @ '' is already in use by pin ''
                     @ py_str (pin_num live))),
            used)
       \<and> PWMOutputDevice_close live used = (None, OutputDevice_close live, used(channel := None))
       \<and> (\<exists>dev. PWMOutputDevice_init pin v (used(channel := None))
                   = (Inr dev, used(channel \<mapsto> pin))
              \<and> pin_num dev = pin)"
proof -
  have "(used(channel := None)) channel = None" by simp
  from init_free [where used = "used(channel := None)" and v = v, OF assms(1) this]
  have "\<exists>dev. PWMOutputDevice_init pin v (used(channel := None))
                   = (Inr dev, used(channel \<mapsto> pin)) \<and> pin_num dev = pin"
    by auto
  moreover have "PWMOutputDevice_close live used
      = (None, OutputDevice_close live, used(channel := None))"
    using close_outcome [OF assms(2), of used] assms(3) by simp
  ultimately show ?thesis
    using init_conflict [where used = used and v = v, OF assms(1) assms(3)] by blast
qed

theorem C4_channel_conflict_witness:
  "py_getitem PIN_TO_PWM_CHANNEL 18 = Inr ''1A''
   \<and> py_getitem PIN_TO_PWM_CHANNEL
        (pin_num (projr (fst (PWMOutputDevice_init 2 (0 :: rat) channels_used_initial)))) = Inr ''1A''
   \<and> snd (PWMOutputDevice_init 2 (0 :: rat) channels_used_initial) ''1A''
        = Some (pin_num (projr (fst (PWMOutputDevice_init 2 (0 :: rat) channels_used_initial))))
   \<and> PWMOutputDevice_init 18 (1 :: rat) (snd (PWMOutputDevice_init 2 (0 :: rat) channels_used_initial))
        = (Inl (PWMChannelAlreadyInUse ''PWM channel 1A is already in use by pin 2''),
           channels_used_initial(''1A'' \<mapsto> 2))
   \<and> snd (snd (PWMOutputDevice_close (projr (fst (PWMOutputDevice_init 2 (0 :: rat) channels_used_initial)))
                 (snd (PWMOutputDevice_init 2 (0 :: rat) channels_used_initial))))
        = channels_used_initial
   \<and> snd (PWMOutputDevice_init 18 (1 :: rat) channels_used_initial)
        = channels_used_initial(''1A'' \<mapsto> 18)"
proof -
  let ?live = "projr (fst (PWMOutputDevice_init 2 (0 :: rat) channels_used_initial))"
  let ?used = "snd (PWMOutputDevice_init 2 (0 :: rat) channels_used_initial)"
  have used: "?used = channels_used_initial(''1A'' \<mapsto> 2)" and live: "pin_num ?live = 2"
    by (simp_all add: PWMOutputDevice_init_def check_pwm_channel_def pin_channels channels_used_initial_def)
  have h: "py_getitem PIN_TO_PWM_CHANNEL 18 = Inr ''1A''"
    "py_getitem PIN_TO_PWM_CHANNEL (pin_num ?live) = Inr ''1A''"
    "?used ''1A'' = Some (pin_num ?live)"
    unfolding live used by (simp_all add: pin_channels)
  have e: "(channels_used_initial(''1A'' \<mapsto> 2))(''1A'' := None) = channels_used_initial"
    by (simp add: channels_used_initial_def)
  from C4_channel_conflict [where used = ?used and live = ?live and v = "1 :: rat", OF h] h show ?thesis
    unfolding live used e by (auto simp add: py_str_examples)
qed

text \<open>
  C5, as stated, fails on the code. A device is constructed on pin 2 and closed; the
  second \<^verbatim>\<open>close\<close> raises \<^verbatim>\<open>KeyError\<close>, because \<^verbatim>\<open>del\<close> is applied to a key that is no
  longer in the dictionary. So does \<^verbatim>\<open>close\<close> on a registry in which the channel was never
  registered.
\<close>

theorem C5_double_close_counterexample:
  "fst (PWMOutputDevice_close
          (fst (snd (PWMOutputDevice_close
             (projr (fst (PWMOutputDevice_init 2 (0 :: rat) channels_used_initial)))
             (snd (PWMOutputDevice_init 2 (0 :: rat) channels_used_initial)))))
          (snd (snd (PWMOutputDevice_close
             (projr (fst (PWMOutputDevice_init 2 (0 :: rat) channels_used_initial)))
             (snd (PWMOutputDevice_init 2 (0 :: rat) channels_used_initial))))))
     = Some KeyError
   \<and> fst (PWMOutputDevice_close
            (projr (fst (PWMOutputDevice_init 2 (0 :: rat) channels_used_initial)))
            channels_used_initial)
     = Some KeyError"
  by (simp add: PWMOutputDevice_init_def check_pwm_channel_def pin_channels channels_used_initial_def
      PWMOutputDevice_close_def Let_def pin_num_close)

text \<open>
  C5, amended. \<^verbatim>\<open>PWMOutputDevice.close\<close> sets the value to 0 and then releases the channel
  of the device's pin: when the channel is registered, the entry is removed and nothing is
  raised; when it is absent, \<^verbatim>\<open>KeyError\<close> is raised and the registry is left as it was. In
  particular a second \<^verbatim>\<open>close\<close> after a successful one raises \<^verbatim>\<open>KeyError\<close>.
\<close>

theorem C5_release_outcome:
  fixes dev :: "'v::zero PWMOutputDevice"
  assumes "py_getitem PIN_TO_PWM_CHANNEL (pin_num dev) = Inr channel"
  shows "PWMOutputDevice_close dev used =
           (if used channel = None then (Some KeyError, OutputDevice_close dev, used)
            else (None, OutputDevice_close dev, used(channel := None)))
       \<and> PWMOutputDevice_close (OutputDevice_close dev) (used(channel := None)) =
           (Some KeyError, OutputDevice_close (OutputDevice_close dev), used(channel := None))"
proof -
  have "py_getitem PIN_TO_PWM_CHANNEL (pin_num (OutputDevice_close dev)) = Inr channel"
    using assms by (simp add: pin_num_close)
  from close_outcome [OF this, of "used(channel := None)"] close_outcome [OF assms, of used]
  show ?thesis by simp
qed

theorem C5_release_outcome_witness:
  "py_getitem PIN_TO_PWM_CHANNEL
      (pin_num (projr (fst (PWMOutputDevice_init 2 (0 :: rat) channels_used_initial)))) = Inr ''1A''
   \<and> fst (PWMOutputDevice_close (projr (fst (PWMOutputDevice_init 2 (0 :: rat) channels_used_initial)))
            (channels_used_initial(''1A'' \<mapsto> 2))) = None
   \<and> snd (snd (PWMOutputDevice_close (projr (fst (PWMOutputDevice_init 2 (0 :: rat) channels_used_initial)))
            (channels_used_initial(''1A'' \<mapsto> 2)))) = channels_used_initial
   \<and> fst (PWMOutputDevice_close
            (OutputDevice_close (projr (fst (PWMOutputDevice_init 2 (0 :: rat) channels_used_initial))))
            channels_used_initial) = Some KeyError"
proof -
  let ?dev = "projr (fst (PWMOutputDevice_init 2 (0 :: rat) channels_used_initial))"
  have live: "pin_num ?dev = 2"
    by (simp add: PWMOutputDevice_init_def check_pwm_channel_def pin_channels channels_used_initial_def)
  have h: "py_getitem PIN_TO_PWM_CHANNEL (pin_num ?dev) = Inr ''1A''"
    unfolding live by (simp add: pin_channels)
  have e: "(channels_used_initial(''1A'' \<mapsto> 2))(''1A'' := None) = channels_used_initial"
    by (simp add: channels_used_initial_def)
  from C5_release_outcome [OF h, of "channels_used_initial(''1A'' \<mapsto> 2)"] h show ?thesis
    unfolding e by simp
qed

text \<open>
  C10. For \<open>0 \<le> p \<le> 13\<close> the table gives the pins \<open>p\<close> and \<open>p + 16\<close> the same channel,
  although the two pin numbers differ. So once a device on pin \<open>p\<close> has been constructed
  on a registry where that channel was free, constructing a device on pin \<open>p + 16\<close>
  raises \<^verbatim>\<open>PWMChannelAlreadyInUse\<close>, naming the channel and the pin \<open>p\<close>. The module creates
  \<^verbatim>\<open>pico_led\<close> on pin 25, which registers the channel \<^verbatim>\<open>4B\<close>; pin 9 has the same channel,
  and constructing a PWM device on pin 9 after the import raises
  \<^verbatim>\<open>PWMChannelAlreadyInUse\<close>.
\<close>

theorem C10_pins_share_channel:
  "(0 \<le> p \<and> p \<le> 13 \<longrightarrow>
      (\<exists>channel. py_getitem PIN_TO_PWM_CHANNEL p = Inr channel
         \<and> py_getitem PIN_TO_PWM_CHANNEL (p + 16) = Inr channel
         \<and> p \<noteq> p + 16
         \<and> (\<forall>used. used channel = None \<longrightarrow>
              (\<exists>live. PWMOutputDevice_init p v used = (Inr live, used(channel \<mapsto> p))
                 \<and> pin_num live = p
                 \<and> PWMOutputDevice_init (p + 16) w (used(channel \<mapsto> p))
                     = (Inl (PWMChannelAlreadyInUse
                              (''PWM channel '' @ channel @ '' is already in use by pin '' @ py_str p)),
                        used(channel \<mapsto> p))))))
   \<and> (\<exists>led. pico_led = (Inr led, channels_used_initial(''4B'' \<mapsto> 25)) \<and> pin_num led = 25)
   \<and> PWMOutputDevice_init 9 w (snd pico_led)
        = (Inl (PWMChannelAlreadyInUse ''PWM channel 4B is already in use by pin 25''), snd pico_led)"
proof (intro conjI impI)
  assume "0 \<le> p \<and> p \<le> 13"
  then have "p \<in> set [0..13]" by simp
  with table_alias have t: "py_getitem PIN_TO_PWM_CHANNEL p = Inr (PIN_TO_PWM_CHANNEL ! nat p)"
    "py_getitem PIN_TO_PWM_CHANNEL (p + 16) = Inr (PIN_TO_PWM_CHANNEL ! nat p)"
    by blast+
  let ?ch = "PIN_TO_PWM_CHANNEL ! nat p"
  have "\<exists>live. PWMOutputDevice_init p v used = (Inr live, used(?ch \<mapsto> p))
                 \<and> pin_num live = p
                 \<and> PWMOutputDevice_init (p + 16) w (used(?ch \<mapsto> p))
                     = (Inl (PWMChannelAlreadyInUse
                              (''PWM channel '' @ ?ch @ '' is already in use by pin '' @ py_str p)),
                        used(?ch \<mapsto> p))"
    if "used ?ch = None" for used
  proof -
    have "(used(?ch \<mapsto> p)) ?ch = Some p" by simp
    from init_conflict [where used = "used(?ch \<mapsto> p)" and v = w, OF t(2) this]
      init_free [where used = used and v = v, OF t(1) that]
    show ?thesis by auto
  qed
  with t show "\<exists>channel. py_getitem PIN_TO_PWM_CHANNEL p = Inr channel
         \<and> py_getitem PIN_TO_PWM_CHANNEL (p + 16) = Inr channel
         \<and> p \<noteq> p + 16
         \<and> (\<forall>used. used channel = None \<longrightarrow>
              (\<exists>live. PWMOutputDevice_init p v used = (Inr live, used(channel \<mapsto> p))
                 \<and> pin_num live = p
                 \<and> PWMOutputDevice_init (p + 16) w (used(channel \<mapsto> p))
                     = (Inl (PWMChannelAlreadyInUse
                              (''PWM channel '' @ channel @ '' is already in use by pin '' @ py_str p)),
                        used(channel \<mapsto> p))))"
    by simp
next
  show "\<exists>led. pico_led = (Inr led, channels_used_initial(''4B'' \<mapsto> 25)) \<and> pin_num led = 25"
    by (simp add: pico_led_def PWMLED_init_def PWMOutputDevice_init_def check_pwm_channel_def
        pin_channels channels_used_initial_def)
next
  have "snd pico_led = channels_used_initial(''4B'' \<mapsto> 25)"
    by (simp add: pico_led_def PWMLED_init_def PWMOutputDevice_init_def check_pwm_channel_def
        pin_channels channels_used_initial_def)
  then have "snd pico_led ''4B'' = Some 25" by simp
  from init_conflict [where used = "snd pico_led" and v = w, OF pin_channels(2) this]
  show "PWMOutputDevice_init 9 w (snd pico_led)
        = (Inl (PWMChannelAlreadyInUse ''PWM channel 4B is already in use by pin 25''), snd pico_led)"
    by (simp add: py_str_examples)
qed

theorem C10_pins_share_channel_witness:
  "(0 :: int) \<le> 2 \<and> (2 :: int) \<le> 13
   \<and> py_getitem PIN_TO_PWM_CHANNEL 2 = Inr ''1A'' \<and> py_getitem PIN_TO_PWM_CHANNEL (2 + 16) = Inr ''1A''
   \<and> channels_used_initial ''1A'' = None
   \<and> PWMOutputDevice_init (2 + 16) (1 :: rat) (channels_used_initial(''1A'' \<mapsto> 2))
       = (Inl (PWMChannelAlreadyInUse ''PWM channel 1A is already in use by pin 2''),
          channels_used_initial(''1A'' \<mapsto> 2))"
proof -
  have h: "(0 :: int) \<le> 2 \<and> (2 :: int) \<le> 13" by simp
  have f: "channels_used_initial ''1A'' = None" by (simp add: channels_used_initial_def)
  from C10_pins_share_channel [of 2 "0 :: rat" "1 :: rat"] h
  obtain channel where c: "py_getitem PIN_TO_PWM_CHANNEL 2 = Inr channel"
    "py_getitem PIN_TO_PWM_CHANNEL (2 + 16) = Inr channel"
    "\<forall>used. used channel = None \<longrightarrow>
              (\<exists>live. PWMOutputDevice_init 2 (0 :: rat) used = (Inr live, used(channel \<mapsto> 2))
                 \<and> pin_num live = 2
                 \<and> PWMOutputDevice_init (2 + 16) (1 :: rat) (used(channel \<mapsto> 2))
                     = (Inl (PWMChannelAlreadyInUse
                              (''PWM channel '' @ channel @ '' is already in use by pin '' @ py_str 2)),
                        used(channel \<mapsto> 2)))"
    by blast
  from c(1) have ch: "channel = ''1A''" by (simp add: pin_channels)
  from c(3) f have "PWMOutputDevice_init (2 + 16) (1 :: rat) (channels_used_initial(''1A'' \<mapsto> 2))
       = (Inl (PWMChannelAlreadyInUse
                (''PWM channel '' @ ''1A'' @ '' is already in use by pin '' @ py_str 2)),
          channels_used_initial(''1A'' \<mapsto> 2))"
    unfolding ch by blast
  with h f c(1,2) show ?thesis
    unfolding ch by (simp add: py_str_examples)
qed

subsection \<open>Fade steps of PWMLED.blink\<close>

lemma upt_5: "[0..<5] = [0, 1, 2, 3, 4]"
  by code_simp

lemma blink_generator_fade:
  assumes "0 < T"
  shows "blink_generator on_time off_time T T_out fps =
           map (\<lambda>i. (double (double (of_nat i * double (1 / fps)) / T), double (1 / fps)))
             [0..<nat (py_int (double (fps * T)))]
           @ (if on_time > 0 then [(1, on_time)] else [])
           @ (if T_out > 0
              then map (\<lambda>i. (double (1 - double (double (of_nat i * double (1 / fps)) / T_out)),
                             double (1 / fps)))
                     [0..<nat (py_int (double (fps * T_out)))]
              else [])
           @ (if off_time > 0 then [(0, off_time)] else [])"
  using assms by (simp add: blink_generator_def)

lemma blink_generator_no_fade:
  "blink_generator on_time off_time 0 0 fps =
     (if on_time > 0 then [(1, on_time)] else []) @ (if off_time > 0 then [(0, off_time)] else [])"
  by (simp add: blink_generator_def)

lemma blink_generator_example:
  "blink_generator 1 1 (double (1 / 5)) (double (1 / 5)) 25 =
     [(0, 5764607523034235 / 144115188075855872),
      (7205759403792793 / 36028797018963968, 5764607523034235 / 144115188075855872),
      (7205759403792793 / 18014398509481984, 5764607523034235 / 144115188075855872),
      (5404319552844595 / 9007199254740992, 5764607523034235 / 144115188075855872),
      (7205759403792793 / 9007199254740992, 5764607523034235 / 144115188075855872),
      (1, 1),
      (1, 5764607523034235 / 144115188075855872),
      (3602879701896397 / 4503599627370496, 5764607523034235 / 144115188075855872),
      (1351079888211149 / 2251799813685248, 5764607523034235 / 144115188075855872),
      (3602879701896397 / 9007199254740992, 5764607523034235 / 144115188075855872),
      (1801439850948199 / 9007199254740992, 5764607523034235 / 144115188075855872),
      (0, 1)]"
  by (simp add: blink_generator_def double_examples py_int_def upt_5)

lemma fade_count_example:
  "length (blink_generator 0 0 (double (3 / 10)) 0 10) = 3" "\<lfloor>10 * double (3 / 10)\<rfloor> = 2"
proof -
  show "length (blink_generator 0 0 (double (3 / 10)) 0 10) = 3"
    by (simp add: blink_generator_def double_examples py_int_def)
  show "\<lfloor>10 * double (3 / 10)\<rfloor> = 2"
    by (rule floor_unique) (simp_all add: double_examples)
qed

text \<open>
  C7, as stated, fails on the code. With \<^verbatim>\<open>fade_in_time = 0.2\<close> and \<^verbatim>\<open>fps = 25\<close> the values of
  the five fade-in steps are not \<^verbatim>\<open>[0.0, 0.08, 0.16, 0.24, 0.32]\<close>, whether these decimals are
  read exactly or as the floats nearest to them: the second value is the float below
  0.2. Nor is the number of steps \<open>\<lfloor>fps * T\<rfloor>\<close> in general: with \<^verbatim>\<open>fps = 10\<close> and the float
  \<^verbatim>\<open>0.3\<close> the product is a little less than 3, its floor is 2, and the code, which rounds
  the product to the float 3.0, yields 3 fade steps.
\<close>

theorem C7_fade_values_counterexample:
  "map fst (take 5 (blink_generator 1 1 (double (1 / 5)) (double (1 / 5)) 25))
     \<noteq> [0, 2 / 25, 4 / 25, 6 / 25, 8 / 25]
   \<and> map fst (take 5 (blink_generator 1 1 (double (1 / 5)) (double (1 / 5)) 25))
     \<noteq> [0, double (2 / 25), double (4 / 25), double (6 / 25), double (8 / 25)]
   \<and> length (blink_generator 0 0 (double (3 / 10)) 0 10) = 3
   \<and> \<lfloor>10 * double (3 / 10)\<rfloor> = 2"
  unfolding blink_generator_example fade_count_example
  by (simp add: double_examples)

text \<open>
  C7, amended. For a fade-in time \<open>T > 0\<close> the generator of \<^verbatim>\<open>PWMLED.blink\<close> yields
  \<^verbatim>\<open>int(fps * T)\<close> fade-in steps, the product being the floating-point product, the step \<open>i\<close>
  with the value \<^verbatim>\<open>i * (1 / fps) / T\<close> and the duration \<^verbatim>\<open>1 / fps\<close>, each operation rounded as
  floats are; then the hold at 1 when \<^verbatim>\<open>on_time > 0\<close>; then for a fade-out time \<open>T_out > 0\<close>
  the \<^verbatim>\<open>int(fps * T_out)\<close> fade-out steps with the values \<^verbatim>\<open>1 - i * (1 / fps) / T_out\<close> and the
  duration \<^verbatim>\<open>1 / fps\<close>; then the hold at 0 when \<^verbatim>\<open>off_time > 0\<close>. Fade phases of length zero
  yield no steps. \<^verbatim>\<open>blink\<close> with \<^verbatim>\<open>on_time > 0\<close> and neither \<^verbatim>\<open>off_time\<close> nor \<^verbatim>\<open>fade_out_time\<close>
  given starts a sequencer with this generator, the fade-out time being the fade-in
  time. For \<^verbatim>\<open>fade_in_time = 0.2\<close> and \<^verbatim>\<open>fps = 25\<close> there are exactly 5 fade-in steps; their
  values are \<open>i / 5\<close> as the floats compute it, which is
  \<^verbatim>\<open>[0.0, 0.19999999999999998, 0.39999999999999997, 0.6, 0.7999999999999999]\<close>, and the
  duration of each is the float \<^verbatim>\<open>0.04\<close>. The five fade-out steps that follow the hold have
  the values \<^verbatim>\<open>[1.0, 0.8, 0.6000000000000001, 0.4, 0.20000000000000007]\<close>.
\<close>

theorem C7_fade_phase:
  fixes dev :: "(rat, 'm) OutputDevice_scheme"
  assumes "0 < T"
  shows "blink_generator on_time off_time T T_out fps =
           map (\<lambda>i. (double (double (of_nat i * double (1 / fps)) / T), double (1 / fps)))
             [0..<nat (py_int (double (fps * T)))]
           @ (if on_time > 0 then [(1, on_time)] else [])
           @ (if T_out > 0
              then map (\<lambda>i. (double (1 - double (double (of_nat i * double (1 / fps)) / T_out)),
                             double (1 / fps)))
                     [0..<nat (py_int (double (fps * T_out)))]
              else [])
           @ (if off_time > 0 then [(0, off_time)] else [])
       \<and> blink_generator on_time off_time 0 0 fps =
           (if on_time > 0 then [(1, on_time)] else []) @ (if off_time > 0 then [(0, off_time)] else [])
       \<and> (0 < on_time \<longrightarrow>
            (\<exists>dev'. PWMLED_blink (Suc (Suc d)) a on_time None T None n fps dev = Inr dev'
               \<and> vc_generator (changers dev' a) = blink_generator on_time on_time T T fps))
       \<and> blink_generator 1 1 (double (1 / 5)) (double (1 / 5)) 25 =
     [(0, 5764607523034235 / 144115188075855872),
      (7205759403792793 / 36028797018963968, 5764607523034235 / 144115188075855872),
      (7205759403792793 / 18014398509481984, 5764607523034235 / 144115188075855872),
      (5404319552844595 / 9007199254740992, 5764607523034235 / 144115188075855872),
      (7205759403792793 / 9007199254740992, 5764607523034235 / 144115188075855872),
      (1, 1),
      (1, 5764607523034235 / 144115188075855872),
      (3602879701896397 / 4503599627370496, 5764607523034235 / 144115188075855872),
      (1351079888211149 / 2251799813685248, 5764607523034235 / 144115188075855872),
      (3602879701896397 / 9007199254740992, 5764607523034235 / 144115188075855872),
      (1801439850948199 / 9007199254740992, 5764607523034235 / 144115188075855872),
      (0, 1)]"
proof (intro conjI impI)
  show "blink_generator on_time off_time T T_out fps =
           map (\<lambda>i. (double (double (of_nat i * double (1 / fps)) / T), double (1 / fps)))
             [0..<nat (py_int (double (fps * T)))]
           @ (if on_time > 0 then [(1, on_time)] else [])
           @ (if T_out > 0
              then map (\<lambda>i. (double (1 - double (double (of_nat i * double (1 / fps)) / T_out)),
                             double (1 / fps)))
                     [0..<nat (py_int (double (fps * T_out)))]
              else [])
           @ (if off_time > 0 then [(0, off_time)] else [])"
    using assms by (rule blink_generator_fade)
next
  show "blink_generator on_time off_time 0 0 fps =
           (if on_time > 0 then [(1, on_time)] else []) @ (if off_time > 0 then [(0, off_time)] else [])"
    by (rule blink_generator_no_fade)
next
  assume on: "0 < on_time"
  let ?gen = "blink_generator on_time on_time T T fps"
  have "?gen \<noteq> []"
    using on by (simp add: blink_generator_fade [OF assms])
  from start_change_playing [OF this, of "Suc d" a n "OutputDevice_off dev"]
  show "\<exists>dev'. PWMLED_blink (Suc (Suc d)) a on_time None T None n fps dev = Inr dev'
               \<and> vc_generator (changers dev' a) = ?gen"
    by (auto simp add: PWMLED_blink_def playing_def)
next
  show "blink_generator 1 1 (double (1 / 5)) (double (1 / 5)) 25 =
     [(0, 5764607523034235 / 144115188075855872),
      (7205759403792793 / 36028797018963968, 5764607523034235 / 144115188075855872),
      (7205759403792793 / 18014398509481984, 5764607523034235 / 144115188075855872),
      (5404319552844595 / 9007199254740992, 5764607523034235 / 144115188075855872),
      (7205759403792793 / 9007199254740992, 5764607523034235 / 144115188075855872),
      (1, 1),
      (1, 5764607523034235 / 144115188075855872),
      (3602879701896397 / 4503599627370496, 5764607523034235 / 144115188075855872),
      (1351079888211149 / 2251799813685248, 5764607523034235 / 144115188075855872),
      (3602879701896397 / 9007199254740992, 5764607523034235 / 144115188075855872),
      (1801439850948199 / 9007199254740992, 5764607523034235 / 144115188075855872),
      (0, 1)]"
    by (rule blink_generator_example)
qed

theorem C7_fade_phase_witness:
  "0 < double (1 / 5) \<and> (0 :: rat) < 1
   \<and> length (blink_generator 1 1 (double (1 / 5)) (double (1 / 5)) 25) = 12
   \<and> map fst (take 5 (blink_generator 1 1 (double (1 / 5)) (double (1 / 5)) 25)) =
        [0, 7205759403792793 / 36028797018963968, 7205759403792793 / 18014398509481984,
         5404319552844595 / 9007199254740992, 7205759403792793 / 9007199254740992]
   \<and> map snd (take 5 (blink_generator 1 1 (double (1 / 5)) (double (1 / 5)) 25)) =
        [double (1 / 25), double (1 / 25), double (1 / 25), double (1 / 25), double (1 / 25)]
   \<and> (\<exists>dev'. PWMLED_blink 2 0 1 None (double (1 / 5)) None None 25 (OutputDevice_init 0) = Inr dev'
         \<and> vc_generator (changers dev' 0) = blink_generator 1 1 (double (1 / 5)) (double (1 / 5)) 25)"
proof -
  have h: "0 < double (1 / 5)" and on: "(0 :: rat) < 1"
    by (simp_all add: double_examples)
  note c = C7_fade_phase [OF h, of 1 1 "double (1 / 5)" 25 0 0 None "OutputDevice_init 0"]
  from c have gen: "blink_generator 1 1 (double (1 / 5)) (double (1 / 5)) 25 =
     [(0, 5764607523034235 / 144115188075855872),
      (7205759403792793 / 36028797018963968, 5764607523034235 / 144115188075855872),
      (7205759403792793 / 18014398509481984, 5764607523034235 / 144115188075855872),
      (5404319552844595 / 9007199254740992, 5764607523034235 / 144115188075855872),
      (7205759403792793 / 9007199254740992, 5764607523034235 / 144115188075855872),
      (1, 1),
      (1, 5764607523034235 / 144115188075855872),
      (3602879701896397 / 4503599627370496, 5764607523034235 / 144115188075855872),
      (1351079888211149 / 2251799813685248, 5764607523034235 / 144115188075855872),
      (3602879701896397 / 9007199254740992, 5764607523034235 / 144115188075855872),
      (1801439850948199 / 9007199254740992, 5764607523034235 / 144115188075855872),
      (0, 1)]"
    by blast
  from c on have "\<exists>dev'. PWMLED_blink (Suc (Suc 0)) 0 1 None (double (1 / 5)) None None 25
                    (OutputDevice_init 0) = Inr dev'
               \<and> vc_generator (changers dev' 0)
                   = blink_generator 1 1 (double (1 / 5)) (double (1 / 5)) 25"
    by blast
  then have b: "\<exists>dev'. PWMLED_blink 2 0 1 None (double (1 / 5)) None None 25
                    (OutputDevice_init 0) = Inr dev'
               \<and> vc_generator (changers dev' 0)
                   = blink_generator 1 1 (double (1 / 5)) (double (1 / 5)) 25"
    by (simp only: numeral_2_eq_2)
  have l: "length (blink_generator 1 1 (double (1 / 5)) (double (1 / 5)) 25) = 12"
    "map fst (take 5 (blink_generator 1 1 (double (1 / 5)) (double (1 / 5)) 25)) =
        [0, 7205759403792793 / 36028797018963968, 7205759403792793 / 18014398509481984,
         5404319552844595 / 9007199254740992, 7205759403792793 / 9007199254740992]"
    "map snd (take 5 (blink_generator 1 1 (double (1 / 5)) (double (1 / 5)) 25)) =
        [double (1 / 25), double (1 / 25), double (1 / 25), double (1 / 25), double (1 / 25)]"
    unfolding gen by (simp_all add: double_examples)
  from h on l b show ?thesis
    by blast
qed

subsection \<open>Tone resolution of PWMBuzzer\<close>

lemma notes_a4: "map_of NOTES ''a4'' = Some 440"
  by code_simp

lemma midi_branch:
  assumes "0 < n" and "n \<le> 128"
  shows "to_freq pow (IntNum n)
           = Inr (IntNum (py_int (double (440 * pow (pow 2 (double (1 / 12))) (of_int (n - 69))))))"
  using assms by (simp add: to_freq_def Let_def)

text \<open>
  C9. \<^verbatim>\<open>PWMBuzzer._to_freq\<close> resolves the name \<^verbatim>\<open>a4\<close> to 440 through the table \<^verbatim>\<open>NOTES\<close>. An
  integer \<open>n\<close> with \<open>0 < n \<le> 128\<close> is a MIDI note and resolves to
  \<^verbatim>\<open>int(440 * (2**(1/12)) ** (n - 69))\<close>, computed in floats; whatever the platform's
  \<^verbatim>\<open>pow\<close> returns elsewhere, \<^verbatim>\<open>x ** 0\<close> is 1.0, so 69 resolves to 440. A number above 128,
  such as 220, is returned unchanged, as an \<^verbatim>\<open>int\<close> or as a \<^verbatim>\<open>float\<close>.
\<close>

theorem C9_to_freq:
  assumes "\<forall>x. pow x 0 = 1"
  shows "to_freq pow (Str ''a4'') = Inr (IntNum 440)
       \<and> to_freq pow (IntNum 69) = Inr (IntNum 440)
       \<and> to_freq pow (IntNum 220) = Inr (IntNum 220)
       \<and> to_freq pow (FloatNum 220) = Inr (FloatNum 220)
       \<and> (0 < n \<and> n \<le> 128 \<longrightarrow>
            to_freq pow (IntNum n)
              = Inr (IntNum (py_int (double (440 * pow (pow 2 (double (1 / 12))) (of_int (n - 69)))))))
       \<and> (128 < n \<longrightarrow> to_freq pow (IntNum n) = Inr (IntNum n))"
proof -
  have "to_freq pow (Str ''a4'') = Inr (IntNum 440)"
    by (simp add: to_freq_def notes_a4)
  moreover have "to_freq pow (IntNum 69) = Inr (IntNum 440)"
    using midi_branch [of 69 pow] assms by (simp add: py_int_def double_examples)
  moreover have "to_freq pow (IntNum 220) = Inr (IntNum 220)"
    "to_freq pow (FloatNum 220) = Inr (FloatNum 220)"
    by (simp_all add: to_freq_def)
  moreover have "128 < n \<longrightarrow> to_freq pow (IntNum n) = Inr (IntNum n)"
    by (simp add: to_freq_def)
  ultimately show ?thesis
    using midi_branch [of n pow] by blast
qed

theorem C9_to_freq_witness:
  "(\<forall>x :: rat. x powi \<lfloor>0 :: rat\<rfloor> = 1)
   \<and> (0 :: int) < 69 \<and> (69 :: int) \<le> 128
   \<and> to_freq (\<lambda>x y. x powi \<lfloor>y\<rfloor>) (IntNum 69) = Inr (IntNum 440)
   \<and> to_freq (\<lambda>x y. x powi \<lfloor>y\<rfloor>) (IntNum 69)
        = Inr (IntNum (py_int (double (440 * (2 powi \<lfloor>double (1 / 12)\<rfloor>) powi \<lfloor>of_int (69 - 69) :: rat\<rfloor>))))
   \<and> (128 :: int) < 220
   \<and> to_freq (\<lambda>x y. x powi \<lfloor>y\<rfloor>) (IntNum 220) = Inr (IntNum 220)"
proof -
  let ?pow = "\<lambda>(x :: rat) (y :: rat). x powi \<lfloor>y\<rfloor>"
  have p: "\<forall>x. ?pow x 0 = 1" by simp
  have h: "(0 :: int) < 69 \<and> (69 :: int) \<le> 128" "(128 :: int) < 220" by simp_all
  note c = C9_to_freq [of ?pow, OF p]
  from c [of 69] h(1) have a: "to_freq ?pow (IntNum 69)
        = Inr (IntNum (py_int (double (440 * (2 powi \<lfloor>double (1 / 12)\<rfloor>) powi \<lfloor>of_int (69 - 69) :: rat\<rfloor>))))"
    by blast
  from c [of 220] h(2) have b: "to_freq ?pow (IntNum 220) = Inr (IntNum 220)"
    by blast
  from c [of 0] have e: "to_freq ?pow (IntNum 69) = Inr (IntNum 440)"
    by blast
  from p h a b e show ?thesis
    by simp
qed

end
